theory Spec2Isabelle
  imports Main
begin

section \<open>Python values used by \<^verbatim>\<open>pyfftw/builders/_utils.py\<close>\<close>

text \<open>
  Python integers are unbounded, so shapes, sizes and axes are lists of \<open>int\<close>.
  Every exception the module can raise is a constructor of \<open>py_error\<close>; a function
  that may raise returns \<open>py_error + 'a\<close> with \<open>Inl\<close> for the exception.
\<close>

datatype py_error =
    Invalid_planner_effort
      \<comment> \<open>\<^verbatim>\<open>ValueError('Invalid planner effort: ', planner_effort)\<close>\<close>
  | Shape_error_lengths
      \<comment> \<open>\<^verbatim>\<open>ValueError('Shape error: Shape and axes have different lengths.')\<close>\<close>
  | Shape_error_dimensionality
      \<comment> \<open>\<^verbatim>\<open>ValueError('Shape error: The length of s or axes cannot exceed ...')\<close>\<close>
  | Invalid_axes
      \<comment> \<open>\<^verbatim>\<open>IndexError('Invalid axes: At least one of the passed axes is invalid.')\<close>\<close>
  | IndexError
      \<comment> \<open>an \<^verbatim>\<open>IndexError\<close> raised by indexing a sequence or array out of range\<close>
  | KeyError
      \<comment> \<open>a key missing from \<^verbatim>\<open>_rc_dtype_pairs\<close>\<close>
  | UnboundLocalError
      \<comment> \<open>a local variable read before it was assigned\<close>
  | Invalid_input_shape
      \<comment> \<open>\<^verbatim>\<open>ValueError('Invalid input shape: The new input array should be ...')\<close>\<close>

text \<open>
  Where a sequence of length \<open>n\<close> is indexed by \<open>i\<close>, Python counts a negative
  \<open>i\<close> from the end and raises \<^verbatim>\<open>IndexError\<close> outside \<open>-n \<le> i < n\<close>.
\<close>

definition resolvable :: "nat \<Rightarrow> int \<Rightarrow> bool" where
  "resolvable n i = (- int n \<le> i \<and> i < int n)"

definition position :: "nat \<Rightarrow> int \<Rightarrow> nat" where
  "position n i = nat (if i < 0 then i + int n else i)"

definition py_index :: "'a list \<Rightarrow> int \<Rightarrow> py_error + 'a" where
  \<comment> \<open>\<^verbatim>\<open>xs[i]\<close>\<close>
  "py_index xs i =
     (if resolvable (length xs) i then Inr (xs ! position (length xs) i) else Inl IndexError)"

definition py_setitem :: "'a list \<Rightarrow> int \<Rightarrow> 'a \<Rightarrow> py_error + 'a list" where
  \<comment> \<open>\<^verbatim>\<open>xs[i] = v\<close> on a list\<close>
  "py_setitem xs i v =
     (if resolvable (length xs) i then Inr (xs[position (length xs) i := v]) else Inl IndexError)"

fun numpy_take :: "int list \<Rightarrow> int list \<Rightarrow> py_error + int list" where
  \<comment> \<open>\<^verbatim>\<open>numpy.take(shape, axes)\<close> with the default mode \<^verbatim>\<open>'raise'\<close>\<close>
  "numpy_take shp [] = Inr []"
| "numpy_take shp (axis # axes) =
     (case py_index shp axis of
        Inl e \<Rightarrow> Inl e
      | Inr v \<Rightarrow> (case numpy_take shp axes of Inl e \<Rightarrow> Inl e | Inr vs \<Rightarrow> Inr (v # vs)))"

section \<open>Slices\<close>

text \<open>
  \<^verbatim>\<open>slice(start, stop)\<close> with step \<^verbatim>\<open>None\<close>; \<^verbatim>\<open>slice(None)\<close> is
  \<open>Slice None None\<close>. \<open>slice_indices\<close> is Python's \<^verbatim>\<open>slice.indices(len)\<close> for
  step 1: the half-open range of positions selected on an axis of the given length.
\<close>

datatype slice = Slice "int option" "int option"

definition clip_bound :: "int \<Rightarrow> int \<Rightarrow> int" where
  "clip_bound len b = (if b < 0 then max (b + len) 0 else min b len)"

fun slice_indices :: "slice \<Rightarrow> int \<Rightarrow> int \<times> int" where
  "slice_indices (Slice start stop) len =
     ((case start of None \<Rightarrow> 0 | Some b \<Rightarrow> clip_bound len b),
      (case stop of None \<Rightarrow> len | Some b \<Rightarrow> clip_bound len b))"

definition slice_extent :: "slice \<Rightarrow> int \<Rightarrow> int" where
  "slice_extent sl len = (case slice_indices sl len of (lo, hi) \<Rightarrow> max 0 (hi - lo))"

section \<open>\<^verbatim>\<open>_setup_input_slicers\<close>\<close>

text \<open>
  The loop \<^verbatim>\<open>for axis in xrange(len(a_shape))\<close> over the two slicer lists;
  \<^verbatim>\<open>input_shape[axis]\<close> raises when \<open>input_shape\<close> is the shorter tuple.
\<close>

fun slicer_loop ::
  "int list \<Rightarrow> int list \<Rightarrow> nat list \<Rightarrow> slice list \<times> slice list
     \<Rightarrow> py_error + (slice list \<times> slice list)" where
  "slicer_loop a_shape input_shape [] st = Inr st"
| "slicer_loop a_shape input_shape (axis # rest) (update_input_array_slicer, FFTW_array_slicer) =
     (case py_index input_shape (int axis) of
        Inl e \<Rightarrow> Inl e
      | Inr req \<Rightarrow>
          if a_shape ! axis > req then
            slicer_loop a_shape input_shape rest
              (update_input_array_slicer[axis := Slice (Some 0) (Some req)], FFTW_array_slicer)
          else if a_shape ! axis < req then
            slicer_loop a_shape input_shape rest
              (update_input_array_slicer[axis := Slice (Some 0) (Some (a_shape ! axis))],
               FFTW_array_slicer[axis := Slice (Some 0) (Some (a_shape ! axis))])
          else
            slicer_loop a_shape input_shape rest
              (update_input_array_slicer[axis := Slice (Some 0) (Some (a_shape ! axis))],
               FFTW_array_slicer))"

definition setup_input_slicers ::
  "int list \<Rightarrow> int list \<Rightarrow> py_error + (slice list \<times> slice list)" where
  "setup_input_slicers a_shape input_shape =
     slicer_loop a_shape input_shape [0..<length a_shape]
       (replicate (length a_shape) (Slice None None),
        replicate (length a_shape) (Slice None None))"

section \<open>\<^verbatim>\<open>_compute_array_shapes\<close>\<close>

text \<open>
  The body of the \<^verbatim>\<open>try\<close> block: the loop \<^verbatim>\<open>for n, axis in enumerate(axes)\<close>,
  which assigns \<open>s[n]\<close> to both shapes at \<open>axis\<close>, then the overwrite for a real
  transform. Each right-hand side is evaluated before the assignment target.
\<close>

fun assign_loop ::
  "int list \<Rightarrow> nat \<Rightarrow> int list \<Rightarrow> int list \<times> int list \<Rightarrow> py_error + (int list \<times> int list)" where
  "assign_loop s n [] st = Inr st"
| "assign_loop s n (axis # axes) (orig_domain_shape, fft_domain_shape) =
     (case py_index s (int n) of
        Inl e \<Rightarrow> Inl e
      | Inr v \<Rightarrow>
          (case py_setitem orig_domain_shape axis v of
             Inl e \<Rightarrow> Inl e
           | Inr orig' \<Rightarrow>
               (case py_setitem fft_domain_shape axis v of
                  Inl e \<Rightarrow> Inl e
                | Inr fft' \<Rightarrow> assign_loop s (Suc n) axes (orig', fft'))))"

definition try_block ::
  "int list \<Rightarrow> int list \<Rightarrow> int list \<Rightarrow> bool \<Rightarrow> py_error + (int list \<times> int list)" where
  "try_block a_shape s axes real =
     (case assign_loop s 0 axes (a_shape, a_shape) of
        Inl e \<Rightarrow> Inl e
      | Inr (orig_domain_shape, fft_domain_shape) \<Rightarrow>
          if real then
            (case py_index s (- 1) of
               Inl e \<Rightarrow> Inl e
             | Inr v \<Rightarrow>
                 (case py_index axes (- 1) of
                    Inl e \<Rightarrow> Inl e
                  | Inr axis \<Rightarrow>
                      (case py_setitem fft_domain_shape axis (v div 2 + 1) of
                         Inl e \<Rightarrow> Inl e
                       | Inr fft' \<Rightarrow> Inr (orig_domain_shape, fft'))))
          else Inr (orig_domain_shape, fft_domain_shape))"

definition compute_array_shapes ::
  "int list \<Rightarrow> int list \<Rightarrow> int list \<Rightarrow> bool \<Rightarrow> bool \<Rightarrow> py_error + (int list \<times> int list)" where
  "compute_array_shapes a_shape s axes inverse' real =
     (case try_block a_shape s axes real of
        Inl e \<Rightarrow> (if e = IndexError then Inl Invalid_axes else Inl e)
      | Inr (orig_domain_shape, fft_domain_shape) \<Rightarrow>
          if inverse' then Inr (fft_domain_shape, orig_domain_shape)
          else Inr (orig_domain_shape, fft_domain_shape))"

section \<open>\<^verbatim>\<open>_cook_nd_args\<close>\<close>

text \<open>
  Lines 267 to 279 fill in the arguments that are \<^verbatim>\<open>None\<close>; lines 282 to 291
  check the two lengths. \<^verbatim>\<open>range(-len_s, 0)\<close> is the list \<open>[-len_s, ..., -1]\<close>.
\<close>

definition cook_defaults ::
  "int list \<Rightarrow> int list option \<Rightarrow> int list option \<Rightarrow> bool \<Rightarrow> py_error + (int list \<times> int list)" where
  "cook_defaults a_shape s axes invreal =
     (let axes' = (case axes of
                     None \<Rightarrow>
                       (let len_s = (case s of None \<Rightarrow> length a_shape | Some sz \<Rightarrow> length sz)
                        in [- int len_s..- 1])
                   | Some ax \<Rightarrow> ax)
      in case s of
           Some sz \<Rightarrow> Inr (sz, axes')
         | None \<Rightarrow>
             (case numpy_take a_shape axes' of
                Inl e \<Rightarrow> Inl e
              | Inr taken \<Rightarrow>
                  if invreal then
                    (case py_index axes' (- 1) of
                       Inl e \<Rightarrow> Inl e
                     | Inr last_axis \<Rightarrow>
                         (case py_index a_shape last_axis of
                            Inl e \<Rightarrow> Inl e
                          | Inr v \<Rightarrow>
                              (case py_setitem taken (- 1) ((v - 1) * 2) of
                                 Inl e \<Rightarrow> Inl e
                               | Inr s' \<Rightarrow> Inr (s', axes'))))
                  else Inr (taken, axes')))"

definition cook_nd_args ::
  "int list \<Rightarrow> int list option \<Rightarrow> int list option \<Rightarrow> bool \<Rightarrow> py_error + (int list \<times> int list)" where
  "cook_nd_args a_shape s axes invreal =
     (case cook_defaults a_shape s axes invreal of
        Inl e \<Rightarrow> Inl e
      | Inr (s', axes') \<Rightarrow>
          if length s' \<noteq> length axes' then Inl Shape_error_lengths
          else if length s' > length a_shape then Inl Shape_error_dimensionality
          else Inr (s', axes'))"

section \<open>Arrays, the allocator and the engine\<close>

text \<open>
  No branch of \<^verbatim>\<open>_Xfftn\<close> reads the elements of an array, so construction is
  modelled on the shape and the dtype name of each array. The calls it makes to numpy
  and to the rest of pyfftw (allocation, copies, planning) are recorded, in order, as
  events: the result of \<open>Xfftn\<close> is the value returned or the exception raised,
  together with the events that happened before.

  Modelled from the spec: the allocator (\<^verbatim>\<open>pyfftw.n_byte_align_empty\<close>,
  \<^verbatim>\<open>pyfftw.n_byte_align\<close>) and the engine's planner (the constructor of
  \<^verbatim>\<open>pyfftw.FFTW\<close>) are not in this module. The spec treats them as opaque
  collaborators that return a buffer of the requested shape and dtype and a plan bound
  to the given buffers; their own failures are outside this module, so each call is one
  event and does not raise.
\<close>

record ndarray =
  shape :: "int list"
  dtype :: string

record plan =
  plan_input_array :: ndarray
  plan_output_array :: ndarray
  plan_axes :: "int list"
  plan_direction :: string
  plan_flags :: "string list"
  plan_threads :: int

datatype event =
    Asarray string
      \<comment> \<open>\<^verbatim>\<open>numpy.asarray(a, dtype=...)\<close>: a converted copy of \<open>a\<close>\<close>
  | Copy
      \<comment> \<open>\<^verbatim>\<open>a_copy = a.copy()\<close>\<close>
  | N_byte_align_empty "int list" int string
      \<comment> \<open>\<^verbatim>\<open>pyfftw.n_byte_align_empty(shape, n, dtype)\<close>: a new buffer\<close>
  | N_byte_align int
      \<comment> \<open>\<^verbatim>\<open>pyfftw.n_byte_align(a, n)\<close>\<close>
  | Make_plan plan
      \<comment> \<open>the constructor of \<^verbatim>\<open>pyfftw.FFTW\<close>, also reached through \<^verbatim>\<open>_FFTWWrapper.__init__\<close>\<close>
  | Fill_zero
      \<comment> \<open>\<^verbatim>\<open>internal_array[:] = 0\<close>\<close>
  | Assign_sliced "slice list" "slice list"
      \<comment> \<open>\<^verbatim>\<open>internal_array[FFTW_array_slicer] = a_copy[update_input_array_slicer]\<close>\<close>
  | Assign_all
      \<comment> \<open>\<^verbatim>\<open>FFTW_object.get_input_array()[:] = a_copy\<close>\<close>

datatype FFTW_object =
    FFTW plan
  | FFTWWrapper plan "slice list" "slice list"
      \<comment> \<open>the plan, \<^verbatim>\<open>input_array_slicer\<close> and \<^verbatim>\<open>FFTW_array_slicer\<close>\<close>

definition valid_efforts :: "string list" where
  "valid_efforts = [''FFTW_ESTIMATE'', ''FFTW_MEASURE'', ''FFTW_PATIENT'', ''FFTW_EXHAUSTIVE'']"

definition rc_dtype_pairs :: "(string \<times> string) list" where
  "rc_dtype_pairs =
     [(''float32'', ''complex64''),
      (''float64'', ''complex128''),
      (''longdouble'', ''clongdouble''),
      (''complex64'', ''float32''),
      (''complex128'', ''float64''),
      (''clongdouble'', ''longdouble'')]"

definition default_dtype :: string where
  "default_dtype = ''float64''"

definition lookup_dtype :: "string \<Rightarrow> py_error + string" where
  \<comment> \<open>\<^verbatim>\<open>_rc_dtype_pairs[key]\<close>\<close>
  "lookup_dtype key = (case map_of rc_dtype_pairs key of None \<Rightarrow> Inl KeyError | Some d \<Rightarrow> Inr d)"

definition iscomplexobj :: "ndarray \<Rightarrow> bool" where
  \<comment> \<open>\<^verbatim>\<open>numpy.iscomplexobj(a)\<close>, decided by the dtype: numpy names its complex
      dtypes \<^verbatim>\<open>complex64\<close>, \<^verbatim>\<open>complex128\<close>, ...; \<^verbatim>\<open>clongdouble\<close> is the name the table uses\<close>
  "iscomplexobj a = (take 7 (dtype a) = ''complex'' \<or> dtype a = ''clongdouble'')"

section \<open>\<^verbatim>\<open>_Xfftn\<close>\<close>

text \<open>Lines 66 to 83: the input dtype is made one of the table's.\<close>

definition coerce_input :: "ndarray \<Rightarrow> bool \<Rightarrow> bool \<Rightarrow> py_error + (ndarray \<times> event list)" where
  "coerce_input a inverse' real =
     (let a_is_complex = iscomplexobj a
      in if map_of rc_dtype_pairs (dtype a) = None then
           (if \<not> real \<or> inverse' then
              (case lookup_dtype default_dtype of
                 Inl e \<Rightarrow> Inl e
               | Inr d \<Rightarrow> Inr (a\<lparr>dtype := d\<rparr>, [Asarray d]))
            else Inr (a\<lparr>dtype := default_dtype\<rparr>, [Asarray default_dtype]))
         else if \<not> (real \<and> \<not> inverse') \<and> \<not> a_is_complex then
           (case lookup_dtype (dtype a) of
              Inl e \<Rightarrow> Inl e
            | Inr d \<Rightarrow> Inr (a\<lparr>dtype := d\<rparr>, [Asarray d]))
         else if (real \<and> \<not> inverse') \<and> a_is_complex then
           (case lookup_dtype (dtype a) of
              Inl e \<Rightarrow> Inl e
            | Inr d \<Rightarrow> Inr (a\<lparr>dtype := d\<rparr>, [Asarray d]))
         else Inr (a, []))"

text \<open>
  Lines 92 to 136, after the shapes and dtypes are known. \<open>a_copy\<close> is \<open>None\<close>
  while the local variable is unbound; reading it then raises. An assignment
  \<^verbatim>\<open>x[:] = v\<close> indexes \<open>x\<close> with one slice, so numpy raises \<^verbatim>\<open>IndexError\<close> when
  \<open>x\<close> has no axis (lines 119 and 134); on line 134 the right-hand side \<open>a_copy\<close>
  is read first.
\<close>

definition build ::
  "ndarray \<Rightarrow> int list \<Rightarrow> int list \<Rightarrow> string \<Rightarrow> int list \<Rightarrow> string \<Rightarrow> string \<Rightarrow> int
     \<Rightarrow> bool \<Rightarrow> bool \<Rightarrow> event list \<Rightarrow> (py_error + FFTW_object) \<times> event list" where
  "build a input_shape output_shape output_dtype axes direction planner_effort threads
      auto_align_input avoid_copy ev0 =
     (let a_copy = (if \<not> avoid_copy then Some a else None);
          ev1 = (if \<not> avoid_copy then ev0 @ [Copy] else ev0);
          output_array = \<lparr>shape = output_shape, dtype = output_dtype\<rparr>;
          ev2 = ev1 @ [N_byte_align_empty output_shape 16 output_dtype];
          flags = (if \<not> auto_align_input then [''FFTW_UNALIGNED'', planner_effort]
                   else [planner_effort])
      in if \<not> (shape a = input_shape) then
           (case setup_input_slicers (shape a) input_shape of
              Inl e \<Rightarrow> (Inl e, ev2)
            | Inr (update_input_array_slicer, FFTW_array_slicer) \<Rightarrow>
                (let input_array = \<lparr>shape = input_shape, dtype = dtype a\<rparr>;
                     p = \<lparr>plan_input_array = input_array, plan_output_array = output_array,
                          plan_axes = axes, plan_direction = direction, plan_flags = flags,
                          plan_threads = threads\<rparr>;
                     ev3 = ev2 @ [N_byte_align_empty input_shape 16 (dtype a), Make_plan p];
                     FFTW_object = FFTWWrapper p update_input_array_slicer FFTW_array_slicer
                 in if \<not> avoid_copy then
                      (if shape input_array = [] then (Inl IndexError, ev3)
                       else
                         (case a_copy of
                            None \<Rightarrow> (Inl UnboundLocalError, ev3 @ [Fill_zero])
                          | Some c \<Rightarrow>
                              (Inr FFTW_object,
                               ev3 @ [Fill_zero,
                                      Assign_sliced FFTW_array_slicer
                                        update_input_array_slicer])))
                    else (Inr FFTW_object, ev3)))
         else
           (let ev3 = (if auto_align_input then ev2 @ [N_byte_align 16] else ev2);
                input_array = a;
                p = \<lparr>plan_input_array = input_array, plan_output_array = output_array,
                     plan_axes = axes, plan_direction = direction, plan_flags = flags,
                     plan_threads = threads\<rparr>;
                ev4 = ev3 @ [Make_plan p]
            in case a_copy of
                 None \<Rightarrow> (Inl UnboundLocalError, ev4)
               | Some c \<Rightarrow>
                   if shape input_array = [] then (Inl IndexError, ev4)
                   else (Inr (FFTW p), ev4 @ [Assign_all])))"

definition Xfftn ::
  "ndarray \<Rightarrow> int list option \<Rightarrow> int list option \<Rightarrow> string \<Rightarrow> int \<Rightarrow> bool \<Rightarrow> bool \<Rightarrow> bool \<Rightarrow> bool
     \<Rightarrow> (py_error + FFTW_object) \<times> event list" where
  "Xfftn a s axes planner_effort threads auto_align_input avoid_copy inverse' real =
     (let invreal = (inverse' \<and> real);
          direction = (if inverse' then ''FFTW_BACKWARD'' else ''FFTW_FORWARD'')
      in if planner_effort \<notin> set valid_efforts then (Inl Invalid_planner_effort, [])
         else
           (case cook_nd_args (shape a) s axes invreal of
              Inl e \<Rightarrow> (Inl e, [])
            | Inr (s', axes') \<Rightarrow>
                (case compute_array_shapes (shape a) s' axes' inverse' real of
                   Inl e \<Rightarrow> (Inl e, [])
                 | Inr (input_shape, output_shape) \<Rightarrow>
                     (case coerce_input a inverse' real of
                        Inl e \<Rightarrow> (Inl e, [])
                      | Inr (a', ev0) \<Rightarrow>
                          (case (if \<not> real then Inr (dtype a') else lookup_dtype (dtype a')) of
                             Inl e \<Rightarrow> (Inl e, ev0)
                           | Inr output_dtype \<Rightarrow>
                               build a' input_shape output_shape output_dtype axes' direction
                                 planner_effort threads auto_align_input avoid_copy ev0)))))"

section \<open>\<^verbatim>\<open>_FFTWWrapper.__call__\<close>\<close>

text \<open>
  At call time the elements matter: an array is its shape, its dtype and its elements,
  a function from a multi-index to an abstract value (the conversion numpy applies on
  assignment between different dtypes is not modelled).
\<close>

record 'v data_array = ndarray +
  elems :: "int list \<Rightarrow> 'v"

datatype 'v engine_call = Engine_call "'v data_array option" "ndarray option" bool
  \<comment> \<open>the arguments \<^verbatim>\<open>input_array\<close>, \<^verbatim>\<open>output_array\<close>, \<^verbatim>\<open>normalise_idft\<close> of one
      call of \<^verbatim>\<open>pyfftw.FFTW.__call__\<close>\<close>

record 'v wrapper =
  self_input_array :: "'v data_array"
    \<comment> \<open>\<^verbatim>\<open>self.get_input_array()\<close>, the internal input buffer\<close>
  self_output_array :: ndarray
  self_input_array_slicer :: "slice list"
  self_FFTW_array_slicer :: "slice list"
  self_engine_calls :: "'v engine_call list"

definition FFTW_call ::
  "'v wrapper \<Rightarrow> 'v data_array option \<Rightarrow> ndarray option \<Rightarrow> bool
     \<Rightarrow> (py_error + ndarray) \<times> 'v wrapper" where
  \<comment> \<open>Modelled from the spec: \<^verbatim>\<open>pyfftw.FFTW.__call__\<close>, the opaque engine's execution of
      the plan, is not in this module. It runs the plan on its bound buffers and returns
      the output buffer, the one passed as \<open>output_array\<close> if there is one; the call is
      recorded with its arguments.\<close>
  "FFTW_call self input_array output_array normalise_idft =
     (Inr (case output_array of None \<Rightarrow> self_output_array self | Some out \<Rightarrow> out),
      self\<lparr>self_engine_calls :=
             self_engine_calls self @ [Engine_call input_array output_array normalise_idft]\<rparr>)"

text \<open>
  \<^verbatim>\<open>arr[slicer]\<close> for a list of slices, which numpy reads as a tuple: more slices
  than axes is an \<^verbatim>\<open>IndexError\<close>, and the axes beyond the slices are taken whole.
  The view starts at \<open>getitem_offsets\<close> and has the shape \<open>getitem_shape\<close>.
\<close>

definition getitem_shape :: "slice list \<Rightarrow> int list \<Rightarrow> py_error + int list" where
  "getitem_shape slicer shp =
     (if length slicer > length shp then Inl IndexError
      else Inr (map2 slice_extent slicer shp @ drop (length slicer) shp))"

definition getitem_offsets :: "slice list \<Rightarrow> int list \<Rightarrow> int list" where
  "getitem_offsets slicer shp =
     map2 (\<lambda>sl len. fst (slice_indices sl len)) slicer shp
       @ replicate (length shp - length slicer) 0"

definition in_box :: "int list \<Rightarrow> int list \<Rightarrow> bool" where
  "in_box box idx = list_all2 (\<lambda>i n. 0 \<le> i \<and> i < n) idx box"

definition assign_view ::
  "int list \<Rightarrow> int list \<Rightarrow> int list \<Rightarrow> (int list \<Rightarrow> 'v) \<Rightarrow> (int list \<Rightarrow> 'v) \<Rightarrow> int list \<Rightarrow> 'v" where
  \<comment> \<open>\<^verbatim>\<open>dst_view[:] = src_view\<close> for two views of the same shape \<open>box\<close>: the new
      elements of the destination array\<close>
  "assign_view dst_off src_off box src dst idx =
     (if length idx = length dst_off \<and> in_box box (map2 (-) idx dst_off)
      then src (map2 (+) (map2 (-) idx dst_off) src_off)
      else dst idx)"

definition FFTWWrapper_call ::
  "'v wrapper \<Rightarrow> 'v data_array option \<Rightarrow> ndarray option \<Rightarrow> bool
     \<Rightarrow> (py_error + ndarray) \<times> 'v wrapper" where
  "FFTWWrapper_call self input_array output_array normalise_idft =
     (case input_array of
        None \<Rightarrow> FFTW_call self None output_array normalise_idft
      | Some new_input \<Rightarrow>
          (let internal_input_array = self_input_array self
           in case getitem_shape (self_FFTW_array_slicer self) (shape internal_input_array) of
                Inl e \<Rightarrow> (Inl e, self)
              | Inr sliced_internal_shape \<Rightarrow>
                  (case getitem_shape (self_input_array_slicer self) (shape new_input) of
                     Inl e \<Rightarrow> (Inl e, self)
                   | Inr sliced_input_shape \<Rightarrow>
                       if sliced_internal_shape \<noteq> sliced_input_shape
                       then (Inl Invalid_input_shape, self)
                       else
                         FFTW_call
                           (self\<lparr>self_input_array := internal_input_array
                              \<lparr>elems :=
                                 assign_view
                                   (getitem_offsets (self_FFTW_array_slicer self)
                                      (shape internal_input_array))
                                   (getitem_offsets (self_input_array_slicer self)
                                      (shape new_input))
                                   sliced_internal_shape (elems new_input)
                                   (elems internal_input_array)\<rparr>\<rparr>)
                           None output_array normalise_idft)))"

section \<open>The shapes a run of the assignment loop leaves\<close>

text \<open>
  When every axis resolves against rank \<open>k\<close> and \<open>s\<close> is long enough, the loop of
  \<^verbatim>\<open>_compute_array_shapes\<close> turns a shape into \<open>assigned k s n axes\<close> of it.
\<close>

fun assigned :: "nat \<Rightarrow> int list \<Rightarrow> nat \<Rightarrow> int list \<Rightarrow> int list \<Rightarrow> int list" where
  "assigned k s n [] xs = xs"
| "assigned k s n (axis # axes) xs = assigned k s (Suc n) axes (xs[position k axis := s ! n])"

section \<open>Indexing and the assignment loop\<close>

lemma py_index_nat: "n < length xs \<Longrightarrow> py_index xs (int n) = Inr (xs ! n)"
  by (simp add: py_index_def resolvable_def position_def)

lemma py_index_last: "xs \<noteq> [] \<Longrightarrow> py_index xs (- 1) = Inr (last xs)"
  by (cases xs rule: rev_cases) (auto simp: py_index_def resolvable_def position_def nth_append)

lemma py_index_empty: "py_index [] i = Inl IndexError"
  by (simp add: py_index_def resolvable_def)

lemma py_index_error: "py_index xs i = Inl e \<Longrightarrow> e = IndexError"
  by (auto simp: py_index_def split: if_splits)

lemma py_setitem_error: "py_setitem xs i v = Inl e \<Longrightarrow> e = IndexError"
  by (auto simp: py_setitem_def split: if_splits)

lemma py_setitem_length: "py_setitem xs i v = Inr ys \<Longrightarrow> length ys = length xs"
  by (auto simp: py_setitem_def split: if_splits)

lemma position_less: "resolvable k i \<Longrightarrow> position k i < k"
  by (auto simp: resolvable_def position_def)

lemma length_assigned: "length (assigned k s n axes xs) = length xs"
  by (induction axes arbitrary: n xs) auto

lemma assigned_unlisted:
  "i \<notin> position k ` set axes \<Longrightarrow> assigned k s n axes xs ! i = xs ! i"
  by (induction axes arbitrary: n xs) auto

lemma assigned_cong:
  "length xs = length ys \<Longrightarrow>
   (\<forall>i<length xs. i \<notin> position k ` set axes \<longrightarrow> xs ! i = ys ! i) \<Longrightarrow>
   assigned k s n axes xs = assigned k s n axes ys"
proof (induction axes arbitrary: n xs ys)
  case Nil
  then show ?case by (simp add: list_eq_iff_nth_eq)
next
  case (Cons axis axes)
  show ?case
    unfolding assigned.simps
  proof (rule Cons.IH)
    show "length (xs[position k axis := s ! n]) = length (ys[position k axis := s ! n])"
      using Cons.prems by simp
    show "\<forall>i<length (xs[position k axis := s ! n]). i \<notin> position k ` set axes \<longrightarrow>
            xs[position k axis := s ! n] ! i = ys[position k axis := s ! n] ! i"
    proof (intro allI impI)
      fix i
      assume "i < length (xs[position k axis := s ! n])" "i \<notin> position k ` set axes"
      then show "xs[position k axis := s ! n] ! i = ys[position k axis := s ! n] ! i"
        using Cons.prems by (cases "i = position k axis") auto
    qed
  qed
qed

lemma assigned_listed:
  "j < length axes \<Longrightarrow> position k (axes ! j) < length xs \<Longrightarrow>
   (\<forall>m. j < m \<and> m < length axes \<longrightarrow> position k (axes ! m) \<noteq> position k (axes ! j)) \<Longrightarrow>
   assigned k s n axes xs ! position k (axes ! j) = s ! (n + j)"
proof (induction axes arbitrary: n xs j)
  case Nil
  then show ?case by simp
next
  case (Cons axis axes)
  show ?case
  proof (cases j)
    case 0
    have "position k axis \<notin> position k ` set axes"
    proof
      assume "position k axis \<in> position k ` set axes"
      then obtain m where "m < length axes" "position k (axes ! m) = position k axis"
        by (auto simp: in_set_conv_nth)
      with Cons.prems(3) 0 show False by (auto dest: spec [of _ "Suc m"])
    qed
    then show ?thesis using 0 Cons.prems(2) by (simp add: assigned_unlisted)
  next
    case (Suc j')
    have "assigned k s (Suc n) axes (xs[position k axis := s ! n]) ! position k (axes ! j') = s ! (Suc n + j')"
    proof (rule Cons.IH)
      show "j' < length axes" using Cons.prems(1) Suc by simp
      show "position k (axes ! j') < length (xs[position k axis := s ! n])"
        using Cons.prems(2) Suc by simp
      show "\<forall>m. j' < m \<and> m < length axes \<longrightarrow> position k (axes ! m) \<noteq> position k (axes ! j')"
        using Cons.prems(3) Suc by (auto dest: spec [of _ "Suc m" for m])
    qed
    then show ?thesis using Suc by simp
  qed
qed

lemma assign_loop_ok:
  "\<forall>ax\<in>set axes. resolvable k ax \<Longrightarrow> n + length axes \<le> length s \<Longrightarrow>
   length orig = k \<Longrightarrow> length fft = k \<Longrightarrow>
   assign_loop s n axes (orig, fft) = Inr (assigned k s n axes orig, assigned k s n axes fft)"
  by (induction axes arbitrary: n orig fft) (auto simp: py_index_nat py_setitem_def)

lemma assign_loop_error: "assign_loop s n axes st = Inl e \<Longrightarrow> e = IndexError"
  by (induction s n axes st rule: assign_loop.induct)
     (auto split: sum.splits dest: py_index_error py_setitem_error)

lemma assign_loop_length:
  "assign_loop s n axes (orig, fft) = Inr (orig', fft') \<Longrightarrow>
   length orig' = length orig \<and> length fft' = length fft"
  by (induction axes arbitrary: n orig fft)
     (auto split: sum.splits dest: py_setitem_length)

lemma assign_loop_bad_axis:
  "\<exists>ax\<in>set axes. \<not> resolvable (length orig) ax \<Longrightarrow> \<exists>e. assign_loop s n axes (orig, fft) = Inl e"
proof (induction axes arbitrary: n orig fft)
  case Nil
  then show ?case by simp
next
  case (Cons axis axes)
  show ?case
  proof (cases "resolvable (length orig) axis")
    case False
    then show ?thesis by (auto simp: py_setitem_def split: sum.splits)
  next
    case True
    with Cons.prems have bad: "\<exists>ax\<in>set axes. \<not> resolvable (length orig) ax" by auto
    show ?thesis
    proof (cases "py_index s (int n)")
      case (Inl e)
      then show ?thesis by simp
    next
      case (Inr v)
      show ?thesis
      proof (cases "py_setitem fft axis v")
        case (Inl e)
        then show ?thesis using Inr True by (simp add: py_setitem_def)
      next
        case fft': (Inr fft')
        have "\<exists>e. assign_loop s (Suc n) axes (orig[position (length orig) axis := v], fft') = Inl e"
          by (rule Cons.IH) (use bad in simp)
        then show ?thesis using Inr True fft' by (simp add: py_setitem_def)
      qed
    qed
  qed
qed

section \<open>Properties of the shape resolver\<close>

lemma try_block_valid:
  assumes "length s = length axes" "\<forall>ax\<in>set axes. resolvable (length a_shape) ax"
    "real \<longrightarrow> axes \<noteq> []"
  shows "try_block a_shape s axes real =
    Inr (assigned (length a_shape) s 0 axes a_shape,
         if real then (assigned (length a_shape) s 0 axes a_shape)
                        [position (length a_shape) (last axes) := last s div 2 + 1]
         else assigned (length a_shape) s 0 axes a_shape)"
proof -
  have loop: "assign_loop s 0 axes (a_shape, a_shape) =
      Inr (assigned (length a_shape) s 0 axes a_shape, assigned (length a_shape) s 0 axes a_shape)"
    using assms by (intro assign_loop_ok) auto
  show ?thesis
  proof (cases real)
    case False
    then show ?thesis by (simp add: try_block_def loop)
  next
    case True
    with assms have ne: "axes \<noteq> []" "s \<noteq> []" by auto
    then have "resolvable (length a_shape) (last axes)" using assms(2) by simp
    then show ?thesis
      using True ne by (simp add: try_block_def loop py_index_last py_setitem_def length_assigned)
  qed
qed

lemma compute_array_shapes_valid:
  assumes "length s = length axes" "\<forall>ax\<in>set axes. resolvable (length a_shape) ax"
    "real \<longrightarrow> axes \<noteq> []"
  shows "compute_array_shapes a_shape s axes inverse' real =
    (let orig = assigned (length a_shape) s 0 axes a_shape;
         fft = (if real then orig[position (length a_shape) (last axes) := last s div 2 + 1]
                else orig)
     in Inr (if inverse' then (fft, orig) else (orig, fft)))"
  by (simp add: compute_array_shapes_def try_block_valid [OF assms] Let_def)

lemma try_block_error: "try_block a_shape s axes real = Inl e \<Longrightarrow> e = IndexError"
  by (auto simp: try_block_def split: sum.splits if_splits prod.splits
      dest: assign_loop_error py_index_error py_setitem_error)

lemma try_block_length:
  "try_block a_shape s axes real = Inr (orig, fft) \<Longrightarrow>
   length orig = length a_shape \<and> length fft = length a_shape"
  by (auto simp: try_block_def split: sum.splits if_splits prod.splits
      dest!: assign_loop_length py_setitem_length)

lemma compute_array_shapes_length:
  "compute_array_shapes a_shape s axes inverse' real = Inr (input_shape, output_shape) \<Longrightarrow>
   length input_shape = length a_shape \<and> length output_shape = length a_shape"
  by (auto simp: compute_array_shapes_def split: sum.splits if_splits prod.splits
      dest: try_block_length)

lemma compute_array_shapes_error:
  "compute_array_shapes a_shape s axes inverse' real = Inl e \<Longrightarrow> e = Invalid_axes"
  by (auto simp: compute_array_shapes_def split: sum.splits if_splits prod.splits
      dest: try_block_error)

lemma last_position_listed:
  assumes ne: "axes \<noteq> []" and "position k (last axes) < length xs"
  shows "assigned k s n axes xs ! position k (last axes) = s ! (n + (length axes - 1))"
proof -
  have "assigned k s n axes xs ! position k (axes ! (length axes - 1)) = s ! (n + (length axes - 1))"
    using ne assms(2) by (intro assigned_listed) (auto simp: last_conv_nth)
  then show ?thesis using ne by (simp add: last_conv_nth)
qed

section \<open>Claim C2: rank and entries of the resolved shapes\<close>

text \<open>
  C2, as stated, asks the resolver to return for every \<open>(array_shape, sizes, axes)\<close>
  with \<open>len(sizes) = len(axes) \<le> len(array_shape)\<close> and every axis resolvable. With no
  axes at all and a real transform it does not: \<^verbatim>\<open>axes[-1]\<close> raises inside the
  \<^verbatim>\<open>try\<close> block and the resolver raises the invalid-axes error.
\<close>

theorem compute_array_shapes_real_no_axes:
  "compute_array_shapes [4] [] [] False True = Inl Invalid_axes"
  by (simp add: compute_array_shapes_def try_block_def py_index_def resolvable_def)

text \<open>
  C2 (amended): for all \<open>(array_shape, sizes, axes)\<close> with
  \<open>len(sizes) = len(axes) \<le> len(array_shape)\<close>, every axis resolvable, and at least one
  axis when the transform is real, the resolver returns \<open>input_shape\<close> and
  \<open>output_shape\<close> of the rank of \<open>array_shape\<close>, both agreeing with \<open>array_shape\<close> at
  every position that no listed axis resolves to; for a real transform the
  transform-domain shape (\<open>output_shape\<close> when forward, \<open>input_shape\<close> when inverse)
  holds \<open>sizes[-1] // 2 + 1\<close> at the last listed axis and the other shape holds the
  full \<open>sizes[-1]\<close> there.
\<close>

theorem compute_array_shapes_rank_and_entries:
  assumes "length s = length axes" "length axes \<le> length a_shape"
    "\<forall>ax\<in>set axes. resolvable (length a_shape) ax"
    "real \<longrightarrow> axes \<noteq> []"
  shows "\<exists>input_shape output_shape.
    compute_array_shapes a_shape s axes inverse' real = Inr (input_shape, output_shape) \<and>
    length input_shape = length a_shape \<and> length output_shape = length a_shape \<and>
    (\<forall>i<length a_shape. i \<notin> position (length a_shape) ` set axes \<longrightarrow>
       input_shape ! i = a_shape ! i \<and> output_shape ! i = a_shape ! i) \<and>
    (real \<longrightarrow>
       (if inverse' then input_shape else output_shape) ! position (length a_shape) (last axes)
         = last s div 2 + 1 \<and>
       (if inverse' then output_shape else input_shape) ! position (length a_shape) (last axes)
         = last s)"
proof -
  let ?k = "length a_shape"
  let ?orig = "assigned ?k s 0 axes a_shape"
  let ?p = "position ?k (last axes)"
  let ?fft = "if real then ?orig[?p := last s div 2 + 1] else ?orig"
  have res: "compute_array_shapes a_shape s axes inverse' real =
      Inr (if inverse' then (?fft, ?orig) else (?orig, ?fft))"
    using compute_array_shapes_valid [OF assms(1,3,4)] by (simp add: Let_def)
  have len: "length ?orig = ?k" "length ?fft = ?k" by (simp_all add: length_assigned)
  have unl: "\<forall>i<?k. i \<notin> position ?k ` set axes \<longrightarrow> ?orig ! i = a_shape ! i \<and> ?fft ! i = a_shape ! i"
  proof (intro allI impI)
    fix i assume i: "i < ?k" "i \<notin> position ?k ` set axes"
    have o: "?orig ! i = a_shape ! i" using i by (simp add: assigned_unlisted)
    have "real \<Longrightarrow> i \<noteq> ?p" using i assms(4) by auto
    then show "?orig ! i = a_shape ! i \<and> ?fft ! i = a_shape ! i" using o by auto
  qed
  have lastp: "real \<longrightarrow> ?fft ! ?p = last s div 2 + 1 \<and> ?orig ! ?p = last s"
  proof
    assume r: real
    then have ne: "axes \<noteq> []" "s \<noteq> []" using assms by auto
    have p: "?p < ?k" using ne assms(3) by (simp add: position_less)
    have "?orig ! ?p = s ! (0 + (length axes - 1))"
      using ne p by (intro last_position_listed) (simp_all)
    then have "?orig ! ?p = last s" using ne assms(1) by (simp add: last_conv_nth)
    then show "?fft ! ?p = last s div 2 + 1 \<and> ?orig ! ?p = last s"
      using r p by (simp add: length_assigned)
  qed
  show ?thesis
  proof (cases inverse')
    case True
    show ?thesis
      apply (rule exI [of _ ?fft], rule exI [of _ ?orig])
      using res len unl lastp True by simp
  next
    case False
    show ?thesis
      apply (rule exI [of _ ?orig], rule exI [of _ ?fft])
      using res len unl lastp False by simp
  qed
qed

text \<open>
  The theorem at the shape \<open>(4, 10)\<close>, size 8 along axis \<open>-1\<close>, real and forward:
  the input shape is \<open>(4, 8)\<close> and the output shape \<open>(4, 5)\<close>.
\<close>

theorem compute_array_shapes_rank_and_entries_witness:
  "\<exists>input_shape output_shape.
     compute_array_shapes [4, 10] [8] [- 1] False True = Inr (input_shape, output_shape) \<and>
     length input_shape = 2 \<and> length output_shape = 2 \<and>
     input_shape ! 0 = 4 \<and> output_shape ! 0 = 4 \<and>
     output_shape ! 1 = 5 \<and> input_shape ! 1 = 8"
proof -
  have h: "length [8::int] = length [- 1::int]" "length [- 1::int] \<le> length [4, 10::int]"
    "\<forall>ax\<in>set [- 1]. resolvable (length [4, 10::int]) ax" "True \<longrightarrow> [- 1::int] \<noteq> []"
    by (simp_all add: resolvable_def)
  from compute_array_shapes_rank_and_entries [OF h, of False]
  obtain input_shape output_shape where
    r: "compute_array_shapes [4, 10] [8] [- 1] False True = Inr (input_shape, output_shape)"
      "length input_shape = length [4, 10::int]" "length output_shape = length [4, 10::int]"
      "\<forall>i<length [4, 10::int]. i \<notin> position (length [4, 10::int]) ` set [- 1] \<longrightarrow>
         input_shape ! i = [4, 10] ! i \<and> output_shape ! i = [4, 10] ! i"
      "output_shape ! position (length [4, 10::int]) (last [- 1]) = last [8] div 2 + 1"
      "input_shape ! position (length [4, 10::int]) (last [- 1]) = last [8]"
    by auto
  have p: "position (length [4, 10::int]) (- 1) = 1" by (simp add: position_def)
  have "input_shape ! 0 = 4 \<and> output_shape ! 0 = 4"
    using r(4) p by (auto dest!: spec [of _ 0])
  then show ?thesis using r p by auto
qed

section \<open>Claim C4: the real round trip\<close>

text \<open>
  C4, as stated, recovers every \<open>sizes[n]\<close> at the axis \<open>axes[n]\<close>. When an axis is
  listed twice the later assignment overwrites the earlier one: with axes \<open>(0, 0)\<close> and
  sizes \<open>(4, 6)\<close> on the shape \<open>(8, 8)\<close>, the inverse's output shape is \<open>(6, 8)\<close>,
  which holds 6 and not \<open>sizes[0] = 4\<close> at axis 0.
\<close>

theorem real_round_trip_duplicate_axis:
  "compute_array_shapes [8, 8] [4, 6] [0, 0] False True = Inr ([6, 8], [4, 8]) \<and>
   compute_array_shapes [4, 8] [4, 6] [0, 0] True True = Inr ([4, 8], [6, 8]) \<and>
   [6, 8] ! position 2 ([0, 0] ! 0) \<noteq> [4, 6 :: int] ! 0"
  by (simp add: compute_array_shapes_def try_block_def py_index_def py_setitem_def
      resolvable_def position_def)

text \<open>
  C4 (amended): for every \<open>(array_shape, sizes, axes)\<close> with
  \<open>len(sizes) = len(axes) \<le> len(array_shape)\<close>, every axis resolvable and at least one
  axis, the forward real resolution succeeds, the inverse real resolution of the
  forward's output shape with the same sizes and axes succeeds, the inverse's output
  shape is the forward's input shape (and its input shape the forward's output shape),
  and it holds \<open>sizes[n]\<close> at the axis \<open>axes[n]\<close> for every \<open>n\<close> whose axis is not
  listed again later in \<open>axes\<close>: for every \<open>n\<close> when the listed axes are distinct.
\<close>

theorem real_round_trip:
  assumes "length s = length axes" "length axes \<le> length a_shape"
    "\<forall>ax\<in>set axes. resolvable (length a_shape) ax"
    "axes \<noteq> []"
  shows "\<exists>fwd_input fwd_output inv_input inv_output.
    compute_array_shapes a_shape s axes False True = Inr (fwd_input, fwd_output) \<and>
    compute_array_shapes fwd_output s axes True True = Inr (inv_input, inv_output) \<and>
    inv_output = fwd_input \<and> inv_input = fwd_output \<and>
    (\<forall>n<length axes.
       (\<forall>m. n < m \<and> m < length axes \<longrightarrow>
          position (length a_shape) (axes ! m) \<noteq> position (length a_shape) (axes ! n)) \<longrightarrow>
       inv_output ! position (length a_shape) (axes ! n) = s ! n)"
proof -
  let ?k = "length a_shape"
  let ?orig = "assigned ?k s 0 axes a_shape"
  let ?p = "position ?k (last axes)"
  let ?fft = "?orig[?p := last s div 2 + 1]"
  have fwd: "compute_array_shapes a_shape s axes False True = Inr (?orig, ?fft)"
    using compute_array_shapes_valid [OF assms(1,3), of True False] assms(4)
    by (simp add: Let_def)
  have lenf: "length ?fft = ?k" by (simp add: length_assigned)
  have again: "assigned ?k s 0 axes ?fft = ?orig"
  proof -
    have "assigned ?k s 0 axes ?fft = assigned ?k s 0 axes ?orig"
    proof (rule assigned_cong)
      show "length ?fft = length ?orig" by simp
      show "\<forall>i<length ?fft. i \<notin> position ?k ` set axes \<longrightarrow> ?fft ! i = ?orig ! i"
      proof (intro allI impI)
        fix i
        assume "i < length ?fft" "i \<notin> position ?k ` set axes"
        moreover have "?p \<in> position ?k ` set axes" using assms(4) by simp
        ultimately have "i \<noteq> ?p" by blast
        then show "?fft ! i = ?orig ! i" by simp
      qed
    qed
    also have "\<dots> = assigned ?k s 0 axes a_shape"
    proof (rule assigned_cong)
      show "length ?orig = length a_shape" by (simp add: length_assigned)
      show "\<forall>i<length ?orig. i \<notin> position ?k ` set axes \<longrightarrow> ?orig ! i = a_shape ! i"
        by (simp add: assigned_unlisted)
    qed
    finally show ?thesis .
  qed
  have "compute_array_shapes ?fft s axes True True =
      Inr ((assigned ?k s 0 axes ?fft)[?p := last s div 2 + 1], assigned ?k s 0 axes ?fft)"
    using compute_array_shapes_valid [of s axes ?fft True True] assms lenf
    by (simp add: Let_def)
  then have inv: "compute_array_shapes ?fft s axes True True = Inr (?fft, ?orig)"
    by (simp add: again)
  have sizes: "\<forall>n<length axes.
       (\<forall>m. n < m \<and> m < length axes \<longrightarrow> position ?k (axes ! m) \<noteq> position ?k (axes ! n)) \<longrightarrow>
       ?orig ! position ?k (axes ! n) = s ! n"
  proof (intro allI impI)
    fix n
    assume n: "n < length axes"
      and later: "\<forall>m. n < m \<and> m < length axes \<longrightarrow> position ?k (axes ! m) \<noteq> position ?k (axes ! n)"
    have "position ?k (axes ! n) < length a_shape"
      using n assms(3) by (simp add: position_less)
    with n later have "?orig ! position ?k (axes ! n) = s ! (0 + n)"
      by (intro assigned_listed) auto
    then show "?orig ! position ?k (axes ! n) = s ! n" by simp
  qed
  show ?thesis
    apply (rule exI [of _ ?orig], rule exI [of _ ?fft])
    apply (rule exI [of _ ?fft], rule exI [of _ ?orig])
    using fwd inv sizes by simp
qed

text \<open>
  The theorem at the shape \<open>(3, 10)\<close> with sizes \<open>(4, 7)\<close> along the axes
  \<open>(0, -1)\<close>: the inverse's output shape holds 4 and 7 again.
\<close>

theorem real_round_trip_witness:
  "\<exists>fwd_input fwd_output inv_input inv_output.
     compute_array_shapes [3, 10] [4, 7] [0, - 1] False True = Inr (fwd_input, fwd_output) \<and>
     compute_array_shapes fwd_output [4, 7] [0, - 1] True True = Inr (inv_input, inv_output) \<and>
     inv_output = fwd_input \<and> inv_output ! 0 = 4 \<and> inv_output ! 1 = 7"
proof -
  have h: "length [4, 7::int] = length [0, - 1::int]" "length [0, - 1::int] \<le> length [3, 10::int]"
    "\<forall>ax\<in>set [0, - 1]. resolvable (length [3, 10::int]) ax" "[0, - 1::int] \<noteq> []"
    by (simp_all add: resolvable_def)
  from real_round_trip [OF h]
  obtain fwd_input fwd_output inv_input inv_output where
    r: "compute_array_shapes [3, 10] [4, 7] [0, - 1] False True = Inr (fwd_input, fwd_output)"
      "compute_array_shapes fwd_output [4, 7] [0, - 1] True True = Inr (inv_input, inv_output)"
      "inv_output = fwd_input"
      "\<forall>n<length [0, - 1::int].
        (\<forall>m. n < m \<and> m < length [0, - 1::int] \<longrightarrow>
           position (length [3, 10::int]) ([0, - 1] ! m) \<noteq> position (length [3, 10::int]) ([0, - 1] ! n)) \<longrightarrow>
        inv_output ! position (length [3, 10::int]) ([0, - 1] ! n) = [4, 7] ! n"
    by blast
  have "inv_output ! 0 = 4"
    using r(4) by (auto dest!: spec [of _ 0] simp: position_def less_Suc_eq)
  moreover have "inv_output ! 1 = 7"
    using r(4) by (auto dest!: spec [of _ 1] simp: position_def)
  ultimately show ?thesis using r by blast
qed

section \<open>Claim C7: axes that do not resolve\<close>

lemma compute_array_shapes_bad_axis:
  assumes "\<exists>ax\<in>set axes. \<not> resolvable (length a_shape) ax"
  shows "compute_array_shapes a_shape s axes inverse' real = Inl Invalid_axes"
proof -
  obtain e where "assign_loop s 0 axes (a_shape, a_shape) = Inl e"
    using assign_loop_bad_axis [OF assms] by blast
  then obtain e' where "try_block a_shape s axes real = Inl e'"
    by (simp add: try_block_def)
  moreover from this have "e' = IndexError" by (rule try_block_error)
  ultimately show ?thesis by (simp add: compute_array_shapes_def)
qed

text \<open>
  C7: whenever the axes list holds an axis \<open>ax\<close> with \<open>ax \<ge> ndim\<close> or \<open>ax < -ndim\<close>,
  the resolver raises the invalid-axes error, whatever the sizes, the direction and the
  kind of transform; and a negative axis within range is resolved from the end: when
  sizes and axes have the same length and every axis is within range, the resolver
  returns, and for a negative \<open>axes[n]\<close> that is not listed again later the
  original-domain shape holds \<open>sizes[n]\<close> at position \<open>ndim + axes[n]\<close>.
\<close>

theorem compute_array_shapes_axis_errors:
  "((\<exists>ax\<in>set axes. ax \<ge> int (length a_shape) \<or> ax < - int (length a_shape)) \<longrightarrow>
      compute_array_shapes a_shape s axes inverse' real = Inl Invalid_axes) \<and>
   (length s = length axes \<and>
    (\<forall>ax\<in>set axes. - int (length a_shape) \<le> ax \<and> ax < int (length a_shape)) \<and>
    n < length axes \<and> axes ! n < 0 \<and>
    (\<forall>m. n < m \<and> m < length axes \<longrightarrow>
       position (length a_shape) (axes ! m) \<noteq> position (length a_shape) (axes ! n)) \<longrightarrow>
      (\<exists>input_shape output_shape.
         compute_array_shapes a_shape s axes inverse' real = Inr (input_shape, output_shape) \<and>
         (if inverse' then output_shape else input_shape)
           ! nat (int (length a_shape) + axes ! n) = s ! n))"
proof (intro conjI impI)
  assume "\<exists>ax\<in>set axes. ax \<ge> int (length a_shape) \<or> ax < - int (length a_shape)"
  then obtain ax where "ax \<in> set axes" "ax \<ge> int (length a_shape) \<or> ax < - int (length a_shape)"
    by blast
  then have "ax \<in> set axes" "\<not> resolvable (length a_shape) ax"
    by (auto simp: resolvable_def)
  then have "\<exists>ax\<in>set axes. \<not> resolvable (length a_shape) ax" by blast
  then show "compute_array_shapes a_shape s axes inverse' real = Inl Invalid_axes"
    by (rule compute_array_shapes_bad_axis)
next
  let ?k = "length a_shape"
  let ?orig = "assigned ?k s 0 axes a_shape"
  let ?fft = "if real then ?orig[position ?k (last axes) := last s div 2 + 1] else ?orig"
  assume a: "length s = length axes \<and>
    (\<forall>ax\<in>set axes. - int ?k \<le> ax \<and> ax < int ?k) \<and>
    n < length axes \<and> axes ! n < 0 \<and>
    (\<forall>m. n < m \<and> m < length axes \<longrightarrow> position ?k (axes ! m) \<noteq> position ?k (axes ! n))"
  then have res: "\<forall>ax\<in>set axes. resolvable ?k ax" by (simp add: resolvable_def)
  have ne: "real \<longrightarrow> axes \<noteq> []" using a by auto
  have r: "compute_array_shapes a_shape s axes inverse' real =
      Inr (if inverse' then (?fft, ?orig) else (?orig, ?fft))"
    using compute_array_shapes_valid [OF _ res ne] a by (simp add: Let_def)
  have pos: "position ?k (axes ! n) = nat (int ?k + axes ! n)"
    using a by (simp add: position_def add.commute)
  have "position ?k (axes ! n) < length a_shape"
    using a res by (simp add: position_less)
  then have "?orig ! position ?k (axes ! n) = s ! (0 + n)"
    using a by (intro assigned_listed) auto
  then have "?orig ! nat (int ?k + axes ! n) = s ! n" by (simp add: pos)
  then show "\<exists>input_shape output_shape.
         compute_array_shapes a_shape s axes inverse' real = Inr (input_shape, output_shape) \<and>
         (if inverse' then output_shape else input_shape) ! nat (int ?k + axes ! n) = s ! n"
    using r by (cases inverse') auto
qed

text \<open>
  On the shape \<open>(4, 5)\<close>: the axes 2 and \<open>-3\<close> raise; the axis \<open>-2\<close> with size 8
  sets position 0 of the input shape.
\<close>

theorem compute_array_shapes_axis_errors_witness:
  "compute_array_shapes [4, 5] [3] [2] False False = Inl Invalid_axes \<and>
   compute_array_shapes [4, 5] [3] [- 3] False False = Inl Invalid_axes \<and>
   (\<exists>input_shape output_shape.
      compute_array_shapes [4, 5] [8] [- 2] False False = Inr (input_shape, output_shape) \<and>
      input_shape ! 0 = 8)"
proof -
  have "compute_array_shapes [4, 5] [3] [2] False False = Inl Invalid_axes"
    using compute_array_shapes_axis_errors [of "[2]" "[4, 5]" "[3]" False False 0] by simp
  moreover have "compute_array_shapes [4, 5] [3] [- 3] False False = Inl Invalid_axes"
    using compute_array_shapes_axis_errors [of "[- 3]" "[4, 5]" "[3]" False False 0] by simp
  moreover have "\<exists>input_shape output_shape.
      compute_array_shapes [4, 5] [8] [- 2] False False = Inr (input_shape, output_shape) \<and>
      input_shape ! 0 = 8"
    using compute_array_shapes_axis_errors [of "[- 2]" "[4, 5]" "[8]" False False 0] by auto
  ultimately show ?thesis by blast
qed

section \<open>Claim C3: the slicers\<close>

lemma slicer_loop_result:
  assumes "length a_shape = n" "length input_shape = n" "length upd = n" "length fftw = n"
    "distinct axs" "\<forall>ax\<in>set axs. ax < n"
  shows "\<exists>upd' fftw'. slicer_loop a_shape input_shape axs (upd, fftw) = Inr (upd', fftw') \<and>
    length upd' = n \<and> length fftw' = n \<and>
    (\<forall>i<n. upd' ! i =
         (if i \<in> set axs then
            (if a_shape ! i > input_shape ! i then Slice (Some 0) (Some (input_shape ! i))
             else Slice (Some 0) (Some (a_shape ! i)))
          else upd ! i) \<and>
       fftw' ! i =
         (if i \<in> set axs \<and> a_shape ! i < input_shape ! i then Slice (Some 0) (Some (a_shape ! i))
          else fftw ! i))"
  using assms
proof (induction axs arbitrary: upd fftw)
  case Nil
  then show ?case by simp
next
  case (Cons axis rest)
  have ax: "axis < n" "axis \<notin> set rest" using Cons.prems by auto
  have idx: "py_index input_shape (int axis) = Inr (input_shape ! axis)"
    using ax Cons.prems(2) by (simp add: py_index_nat)
  let ?upd = "upd[axis := (if a_shape ! axis > input_shape ! axis
                  then Slice (Some 0) (Some (input_shape ! axis))
                  else Slice (Some 0) (Some (a_shape ! axis)))]"
  let ?fftw = "if a_shape ! axis < input_shape ! axis
                 then fftw[axis := Slice (Some 0) (Some (a_shape ! axis))] else fftw"
  have step: "slicer_loop a_shape input_shape (axis # rest) (upd, fftw) =
      slicer_loop a_shape input_shape rest (?upd, ?fftw)"
    by (simp add: idx)
  have "\<exists>upd' fftw'. slicer_loop a_shape input_shape rest (?upd, ?fftw) = Inr (upd', fftw') \<and>
    length upd' = n \<and> length fftw' = n \<and>
    (\<forall>i<n. upd' ! i =
         (if i \<in> set rest then
            (if a_shape ! i > input_shape ! i then Slice (Some 0) (Some (input_shape ! i))
             else Slice (Some 0) (Some (a_shape ! i)))
          else ?upd ! i) \<and>
       fftw' ! i =
         (if i \<in> set rest \<and> a_shape ! i < input_shape ! i then Slice (Some 0) (Some (a_shape ! i))
          else ?fftw ! i))"
    using Cons.prems by (intro Cons.IH) auto
  then obtain upd' fftw' where
    r: "slicer_loop a_shape input_shape rest (?upd, ?fftw) = Inr (upd', fftw')"
      "length upd' = n" "length fftw' = n"
      "\<forall>i<n. upd' ! i =
         (if i \<in> set rest then
            (if a_shape ! i > input_shape ! i then Slice (Some 0) (Some (input_shape ! i))
             else Slice (Some 0) (Some (a_shape ! i)))
          else ?upd ! i) \<and>
       fftw' ! i =
         (if i \<in> set rest \<and> a_shape ! i < input_shape ! i then Slice (Some 0) (Some (a_shape ! i))
          else ?fftw ! i)"
    by blast
  have "\<forall>i<n. upd' ! i =
         (if i \<in> set (axis # rest) then
            (if a_shape ! i > input_shape ! i then Slice (Some 0) (Some (input_shape ! i))
             else Slice (Some 0) (Some (a_shape ! i)))
          else upd ! i) \<and>
       fftw' ! i =
         (if i \<in> set (axis # rest) \<and> a_shape ! i < input_shape ! i
          then Slice (Some 0) (Some (a_shape ! i))
          else fftw ! i)"
  proof (intro allI impI)
    fix i assume i: "i < n"
    show "upd' ! i =
         (if i \<in> set (axis # rest) then
            (if a_shape ! i > input_shape ! i then Slice (Some 0) (Some (input_shape ! i))
             else Slice (Some 0) (Some (a_shape ! i)))
          else upd ! i) \<and>
       fftw' ! i =
         (if i \<in> set (axis # rest) \<and> a_shape ! i < input_shape ! i
          then Slice (Some 0) (Some (a_shape ! i))
          else fftw ! i)"
    proof (cases "i = axis")
      case True
      then show ?thesis using r(4) i ax Cons.prems(3,4) by simp
    next
      case False
      then show ?thesis using r(4) i by simp
    qed
  qed
  then show ?case using step r by simp
qed

lemma setup_input_slicers_nth:
  assumes "length a_shape = length input_shape"
  shows "\<exists>source dest. setup_input_slicers a_shape input_shape = Inr (source, dest) \<and>
    length source = length a_shape \<and> length dest = length a_shape \<and>
    (\<forall>i<length a_shape.
       source ! i =
         (if a_shape ! i > input_shape ! i then Slice (Some 0) (Some (input_shape ! i))
          else Slice (Some 0) (Some (a_shape ! i))) \<and>
       dest ! i =
         (if a_shape ! i < input_shape ! i then Slice (Some 0) (Some (a_shape ! i))
          else Slice None None))"
proof -
  let ?n = "length a_shape"
  let ?init = "replicate ?n (Slice None None)"
  have h: "length a_shape = ?n" "length input_shape = ?n" "length ?init = ?n"
    "distinct [0..<?n]" "\<forall>ax\<in>set [0..<?n]. ax < ?n"
    using assms by simp_all
  obtain source dest where
    r: "slicer_loop a_shape input_shape [0..<?n] (?init, ?init) = Inr (source, dest)"
      "length source = ?n" "length dest = ?n"
    and nth: "\<forall>i<?n. source ! i =
         (if i \<in> set [0..<?n] then
            (if a_shape ! i > input_shape ! i then Slice (Some 0) (Some (input_shape ! i))
             else Slice (Some 0) (Some (a_shape ! i)))
          else ?init ! i) \<and>
       dest ! i =
         (if i \<in> set [0..<?n] \<and> a_shape ! i < input_shape ! i
          then Slice (Some 0) (Some (a_shape ! i))
          else ?init ! i)"
    using slicer_loop_result [OF h(1,2,3,3,4,5)] by blast
  have "\<forall>i<?n. source ! i =
         (if a_shape ! i > input_shape ! i then Slice (Some 0) (Some (input_shape ! i))
          else Slice (Some 0) (Some (a_shape ! i))) \<and>
       dest ! i =
         (if a_shape ! i < input_shape ! i then Slice (Some 0) (Some (a_shape ! i))
          else Slice None None)"
  proof (intro allI impI)
    fix i assume i: "i < ?n"
    then have "i \<in> set [0..<?n]" "?init ! i = Slice None None" by simp_all
    then show "source ! i =
         (if a_shape ! i > input_shape ! i then Slice (Some 0) (Some (input_shape ! i))
          else Slice (Some 0) (Some (a_shape ! i))) \<and>
       dest ! i =
         (if a_shape ! i < input_shape ! i then Slice (Some 0) (Some (a_shape ! i))
          else Slice None None)"
      using nth i by (simp del: set_upt)
  qed
  then show ?thesis using r unfolding setup_input_slicers_def by blast
qed

text \<open>
  C3: for shapes \<open>user_shape\<close> and \<open>required_input_shape\<close> of equal rank (their
  entries are not negative) the slicer builder returns a source and a dest slicer with
  one slice per axis, and for each axis \<open>i\<close>: if \<open>user_shape[i] > required_input_shape[i]\<close>
  the source slice is \<^verbatim>\<open>slice(0, required_input_shape[i])\<close>, selecting
  \<open>[0, required_input_shape[i])\<close> of the user axis, and the dest slice is
  \<^verbatim>\<open>slice(None)\<close>, the full internal axis; if \<open>user_shape[i] < required_input_shape[i]\<close>
  both are \<^verbatim>\<open>slice(0, user_shape[i])\<close>, selecting \<open>[0, user_shape[i])\<close>; if the two are
  equal both select the full axis; in every case the two slices select the same number
  of positions, the source on the user axis and the dest on the internal axis.
\<close>

theorem setup_input_slicers_bounds:
  assumes "length user_shape = length required_input_shape"
    "i < length user_shape" "0 \<le> user_shape ! i" "0 \<le> required_input_shape ! i"
  shows "\<exists>source dest.
    setup_input_slicers user_shape required_input_shape = Inr (source, dest) \<and>
    length source = length user_shape \<and> length dest = length user_shape \<and>
    (user_shape ! i > required_input_shape ! i \<longrightarrow>
       source ! i = Slice (Some 0) (Some (required_input_shape ! i)) \<and>
       slice_indices (source ! i) (user_shape ! i) = (0, required_input_shape ! i) \<and>
       dest ! i = Slice None None \<and>
       slice_indices (dest ! i) (required_input_shape ! i) = (0, required_input_shape ! i)) \<and>
    (user_shape ! i < required_input_shape ! i \<longrightarrow>
       source ! i = Slice (Some 0) (Some (user_shape ! i)) \<and>
       slice_indices (source ! i) (user_shape ! i) = (0, user_shape ! i) \<and>
       dest ! i = Slice (Some 0) (Some (user_shape ! i)) \<and>
       slice_indices (dest ! i) (required_input_shape ! i) = (0, user_shape ! i)) \<and>
    (user_shape ! i = required_input_shape ! i \<longrightarrow>
       slice_indices (source ! i) (user_shape ! i) = (0, user_shape ! i) \<and>
       slice_indices (dest ! i) (required_input_shape ! i) = (0, required_input_shape ! i)) \<and>
    slice_extent (source ! i) (user_shape ! i) = slice_extent (dest ! i) (required_input_shape ! i)"
proof -
  obtain source dest where
    r: "setup_input_slicers user_shape required_input_shape = Inr (source, dest)"
      "length source = length user_shape" "length dest = length user_shape"
    and nth: "\<forall>i<length user_shape.
       source ! i =
         (if user_shape ! i > required_input_shape ! i
          then Slice (Some 0) (Some (required_input_shape ! i))
          else Slice (Some 0) (Some (user_shape ! i))) \<and>
       dest ! i =
         (if user_shape ! i < required_input_shape ! i then Slice (Some 0) (Some (user_shape ! i))
          else Slice None None)"
    using setup_input_slicers_nth [OF assms(1)] by blast
  have src: "source ! i =
         (if user_shape ! i > required_input_shape ! i
          then Slice (Some 0) (Some (required_input_shape ! i))
          else Slice (Some 0) (Some (user_shape ! i)))"
    and dst: "dest ! i =
         (if user_shape ! i < required_input_shape ! i then Slice (Some 0) (Some (user_shape ! i))
          else Slice None None)"
    using nth assms(2) by auto
  have gt: "user_shape ! i > required_input_shape ! i \<longrightarrow>
       source ! i = Slice (Some 0) (Some (required_input_shape ! i)) \<and>
       slice_indices (source ! i) (user_shape ! i) = (0, required_input_shape ! i) \<and>
       dest ! i = Slice None None \<and>
       slice_indices (dest ! i) (required_input_shape ! i) = (0, required_input_shape ! i)"
    using assms(3,4) by (simp add: src dst clip_bound_def)
  have lt: "user_shape ! i < required_input_shape ! i \<longrightarrow>
       source ! i = Slice (Some 0) (Some (user_shape ! i)) \<and>
       slice_indices (source ! i) (user_shape ! i) = (0, user_shape ! i) \<and>
       dest ! i = Slice (Some 0) (Some (user_shape ! i)) \<and>
       slice_indices (dest ! i) (required_input_shape ! i) = (0, user_shape ! i)"
    using assms(3,4) by (simp add: src dst clip_bound_def)
  have eq: "user_shape ! i = required_input_shape ! i \<longrightarrow>
       slice_indices (source ! i) (user_shape ! i) = (0, user_shape ! i) \<and>
       slice_indices (dest ! i) (required_input_shape ! i) = (0, required_input_shape ! i)"
    using assms(3,4) by (simp add: src dst clip_bound_def)
  have ext: "slice_extent (source ! i) (user_shape ! i) =
      slice_extent (dest ! i) (required_input_shape ! i)"
    using gt lt eq assms(3,4)
    by (cases "user_shape ! i" "required_input_shape ! i" rule: linorder_cases)
       (simp_all add: slice_extent_def clip_bound_def)
  show ?thesis
    apply (rule exI [of _ source], rule exI [of _ dest])
    using r gt lt eq ext by blast
qed

text \<open>
  The user shape \<open>(8, 4, 5)\<close> against the required shape \<open>(4, 8, 5)\<close>: axis 0 is
  truncated, axis 1 is padded, axis 2 is copied whole.
\<close>

theorem setup_input_slicers_bounds_witness:
  "\<exists>source dest.
     setup_input_slicers [8, 4, 5] [4, 8, 5] = Inr (source, dest) \<and>
     source ! 0 = Slice (Some 0) (Some 4) \<and> dest ! 0 = Slice None None \<and>
     slice_extent (source ! 0) 8 = slice_extent (dest ! 0) 4 \<and>
     source ! 1 = Slice (Some 0) (Some 4) \<and> dest ! 1 = Slice (Some 0) (Some 4) \<and>
     slice_extent (source ! 1) 4 = slice_extent (dest ! 1) 8 \<and>
     slice_indices (source ! 2) 5 = (0, 5) \<and> slice_indices (dest ! 2) 5 = (0, 5)"
proof -
  have e: "setup_input_slicers [8, 4, 5] [4, 8, 5] =
      Inr ([Slice (Some 0) (Some 4), Slice (Some 0) (Some 4), Slice (Some 0) (Some 5)],
           [Slice None None, Slice (Some 0) (Some 4), Slice None None])"
    by (simp add: setup_input_slicers_def py_index_def resolvable_def position_def upt_rec)
  have h: "length [8, 4, 5::int] = length [4, 8, 5::int]" by simp
  show ?thesis
    using setup_input_slicers_bounds [OF h, of 0]
      setup_input_slicers_bounds [OF h, of 1]
      setup_input_slicers_bounds [OF h, of 2]
    by (simp add: e)
qed

section \<open>The normalizer\<close>

lemma numpy_take_eq:
  "numpy_take shp axes =
     (if \<forall>ax\<in>set axes. resolvable (length shp) ax
      then Inr (map (\<lambda>ax. shp ! position (length shp) ax) axes) else Inl IndexError)"
  by (induction axes) (auto simp: py_index_def)

lemma last_axes_resolvable: "k \<le> m \<Longrightarrow> \<forall>ax\<in>set [- int k..- 1]. resolvable m ax"
  by (auto simp: resolvable_def)

lemma py_setitem_last:
  "xs \<noteq> [] \<Longrightarrow> py_setitem xs (- 1) v = Inr (xs[length xs - 1 := v])"
  by (cases xs rule: rev_cases) (auto simp: py_setitem_def resolvable_def position_def)

lemma py_index_resolvable:
  "resolvable (length xs) i \<Longrightarrow> py_index xs i = Inr (xs ! position (length xs) i)"
  by (simp add: py_index_def)

lemma map_last_axes:
  "map (\<lambda>i. xs ! position (length xs) i) [- int (length xs)..- 1] = xs"
  by (rule nth_equalityI) (auto simp: position_def)

lemma last_last_axes: "0 < k \<Longrightarrow> last [- int k..- 1] = - 1"
  by (simp add: last_conv_nth)

lemma last_axes_empty: "[- int k..- 1] = [] \<longleftrightarrow> k = 0"
  by auto

lemma cook_defaults_given:
  "cook_defaults a_shape (Some sz) axes invreal =
     Inr (sz, case axes of None \<Rightarrow> [- int (length sz)..- 1] | Some ax \<Rightarrow> ax)"
  by (simp add: cook_defaults_def split: option.splits)

lemma cook_defaults_absent_given:
  "cook_defaults a_shape None (Some ax) invreal =
     (if \<not> (\<forall>i\<in>set ax. resolvable (length a_shape) i) then Inl IndexError
      else if invreal then
        (if ax = [] then Inl IndexError
         else Inr ((map (\<lambda>i. a_shape ! position (length a_shape) i) ax)
                     [length ax - 1 := (a_shape ! position (length a_shape) (last ax) - 1) * 2],
                   ax))
      else Inr (map (\<lambda>i. a_shape ! position (length a_shape) i) ax, ax))"
proof (cases "\<forall>i\<in>set ax. resolvable (length a_shape) i")
  case False
  then show ?thesis by (auto simp: cook_defaults_def numpy_take_eq)
next
  case res: True
  show ?thesis
  proof (cases "ax = []")
    case True
    then show ?thesis by (simp add: cook_defaults_def py_index_def resolvable_def)
  next
    case False
    then have l: "py_index ax (- 1) = Inr (last ax)" by (rule py_index_last)
    have lr: "resolvable (length a_shape) (last ax)" using False res by simp
    have tne: "map (\<lambda>i. a_shape ! position (length a_shape) i) ax \<noteq> []" using False by simp
    show ?thesis
      using res False
      by (simp add: cook_defaults_def numpy_take_eq l py_index_resolvable [OF lr]
          py_setitem_last [OF tne])
  qed
qed

lemma cook_defaults_absent_absent:
  "cook_defaults a_shape None None invreal =
     cook_defaults a_shape None (Some [- int (length a_shape)..- 1]) invreal"
  by (simp add: cook_defaults_def)

lemma cook_nd_args_given_given:
  "cook_nd_args a_shape (Some sz) (Some ax) invreal =
     (if length sz \<noteq> length ax then Inl Shape_error_lengths
      else if length sz > length a_shape then Inl Shape_error_dimensionality
      else Inr (sz, ax))"
  by (simp add: cook_nd_args_def cook_defaults_given)

lemma cook_nd_args_given_absent:
  "cook_nd_args a_shape (Some sz) None invreal =
     (if length sz > length a_shape then Inl Shape_error_dimensionality
      else Inr (sz, [- int (length sz)..- 1]))"
  by (simp add: cook_nd_args_def cook_defaults_given)

lemma cook_nd_args_absent_given:
  "cook_nd_args a_shape None (Some ax) invreal =
     (if \<not> (\<forall>i\<in>set ax. resolvable (length a_shape) i) \<or> (invreal \<and> ax = [])
      then Inl IndexError
      else if length ax > length a_shape then Inl Shape_error_dimensionality
      else Inr (if invreal
                then (map (\<lambda>i. a_shape ! position (length a_shape) i) ax)
                       [length ax - 1 := (a_shape ! position (length a_shape) (last ax) - 1) * 2]
                else map (\<lambda>i. a_shape ! position (length a_shape) i) ax,
                ax))"
  by (simp add: cook_nd_args_def cook_defaults_absent_given)

lemma cook_nd_args_absent_absent:
  "cook_nd_args a_shape None None invreal =
     (if invreal \<and> a_shape = [] then Inl IndexError
      else Inr (if invreal then a_shape[length a_shape - 1 := (last a_shape - 1) * 2]
                else a_shape,
                [- int (length a_shape)..- 1]))"
proof -
  let ?k = "length a_shape"
  let ?ax = "[- int ?k..- 1]"
  have c: "cook_nd_args a_shape None None invreal = cook_nd_args a_shape None (Some ?ax) invreal"
    by (simp add: cook_nd_args_def cook_defaults_absent_absent)
  have res: "\<forall>i\<in>set ?ax. resolvable ?k i" by (rule last_axes_resolvable) simp
  have e: "?ax = [] \<longleftrightarrow> a_shape = []" by auto
  have lst: "a_shape \<noteq> [] \<Longrightarrow> a_shape ! position ?k (last ?ax) = last a_shape"
  proof -
    assume ne: "a_shape \<noteq> []"
    then have k: "0 < ?k" by (cases a_shape) simp_all
    then have "last ?ax = - 1" by (rule last_last_axes)
    moreover have "nat (- 1 + int ?k) = ?k - 1" using k by simp
    ultimately show ?thesis using ne by (simp add: position_def last_conv_nth)
  qed
  show ?thesis
    unfolding c cook_nd_args_absent_given
    using res e lst by (simp add: map_last_axes del: set_upto)
qed

section \<open>Claim C5: the defaults of the normalizer\<close>

text \<open>
  C5: what the normalizer does with an absent argument, for every array.
  With sizes given and axes absent, the axes become the last \<open>k = len(sizes)\<close> axes as
  the negative indices \<open>-k, ..., -1\<close>, and the sizes are kept (the call raises the shape
  error when \<open>k\<close> exceeds the rank).
  With sizes absent and axes given, the call returns the given axes and, as sizes, the
  entries of the array's shape at those axes, a negative axis counted from the end; for
  an inverse real transform the last size is \<open>(array_shape[last_axis] - 1) * 2\<close>
  instead. It raises \<^verbatim>\<open>IndexError\<close> when an axis does not resolve against the array,
  or for an inverse real transform with no axis, and the shape error when there are more
  axes than the array has.
  With both absent, the axes are \<open>-ndim, ..., -1\<close> and the sizes are the array's shape,
  the last one replaced by \<open>(array_shape[-1] - 1) * 2\<close> for an inverse real transform
  (which raises \<^verbatim>\<open>IndexError\<close> on an array without axes).
\<close>

theorem cook_nd_args_defaults:
  "cook_nd_args a_shape (Some sz) None invreal =
     (if length sz > length a_shape then Inl Shape_error_dimensionality
      else Inr (sz, [- int (length sz)..- 1])) \<and>
   cook_nd_args a_shape None (Some ax) invreal =
     (if (\<exists>i\<in>set ax. i < - int (length a_shape) \<or> int (length a_shape) \<le> i) \<or>
         (invreal \<and> ax = [])
      then Inl IndexError
      else if length ax > length a_shape then Inl Shape_error_dimensionality
      else Inr (if invreal
                then (map (\<lambda>i. a_shape ! nat (if i < 0 then i + int (length a_shape) else i)) ax)
                       [length ax - 1 :=
                          (a_shape ! nat (if last ax < 0 then last ax + int (length a_shape)
                                          else last ax) - 1) * 2]
                else map (\<lambda>i. a_shape ! nat (if i < 0 then i + int (length a_shape) else i)) ax,
                ax)) \<and>
   cook_nd_args a_shape None None invreal =
     (if invreal \<and> a_shape = [] then Inl IndexError
      else Inr (if invreal then a_shape[length a_shape - 1 := (last a_shape - 1) * 2]
                else a_shape,
                [- int (length a_shape)..- 1]))"
proof (intro conjI)
  show "cook_nd_args a_shape (Some sz) None invreal =
     (if length sz > length a_shape then Inl Shape_error_dimensionality
      else Inr (sz, [- int (length sz)..- 1]))"
    by (rule cook_nd_args_given_absent)
next
  have "\<And>i. (i < - int (length a_shape) \<or> int (length a_shape) \<le> i) \<longleftrightarrow>
      \<not> resolvable (length a_shape) i"
    by (auto simp: resolvable_def)
  then have b: "(\<exists>i\<in>set ax. i < - int (length a_shape) \<or> int (length a_shape) \<le> i) \<longleftrightarrow>
      \<not> (\<forall>i\<in>set ax. resolvable (length a_shape) i)"
    by simp
  show "cook_nd_args a_shape None (Some ax) invreal =
     (if (\<exists>i\<in>set ax. i < - int (length a_shape) \<or> int (length a_shape) \<le> i) \<or>
         (invreal \<and> ax = [])
      then Inl IndexError
      else if length ax > length a_shape then Inl Shape_error_dimensionality
      else Inr (if invreal
                then (map (\<lambda>i. a_shape ! nat (if i < 0 then i + int (length a_shape) else i)) ax)
                       [length ax - 1 :=
                          (a_shape ! nat (if last ax < 0 then last ax + int (length a_shape)
                                          else last ax) - 1) * 2]
                else map (\<lambda>i. a_shape ! nat (if i < 0 then i + int (length a_shape) else i)) ax,
                ax))"
    unfolding b cook_nd_args_absent_given position_def by (rule refl)
next
  show "cook_nd_args a_shape None None invreal =
     (if invreal \<and> a_shape = [] then Inl IndexError
      else Inr (if invreal then a_shape[length a_shape - 1 := (last a_shape - 1) * 2]
                else a_shape,
                [- int (length a_shape)..- 1]))"
    by (rule cook_nd_args_absent_absent)
qed

text \<open>
  On the shape \<open>(3, 10)\<close>: the one size 8 gets the axis \<open>-1\<close>; the axes \<open>(-1, 0)\<close> of
  an inverse real transform get the sizes \<open>(10, 4)\<close>; the axis 2 does not resolve; with
  nothing given an inverse real transform gets the axes \<open>(-2, -1)\<close> and the sizes
  \<open>(3, 18)\<close>.
\<close>

theorem cook_nd_args_defaults_witness:
  "cook_nd_args [3, 10] (Some [8]) None False = Inr ([8], [- 1]) \<and>
   cook_nd_args [3, 10] None (Some [- 1, 0]) True = Inr ([10, 4], [- 1, 0]) \<and>
   cook_nd_args [3, 10] None (Some [2]) False = Inl IndexError \<and>
   cook_nd_args [3, 10] None None True = Inr ([3, 18], [- 2, - 1])"
proof -
  have u: "[- 2..- 1] = [- 2, - 1 :: int]" "[- 1..- 1] = [- 1 :: int]"
    by (simp_all add: upto.simps)
  have 1: "cook_nd_args [3, 10] (Some [8]) None False = Inr ([8], [- 1])"
    using cook_nd_args_defaults [of "[3, 10]" "[8]" False, THEN conjunct1] by (simp add: u)
  have 2: "cook_nd_args [3, 10] None (Some [- 1, 0]) True = Inr ([10, 4], [- 1, 0])"
    using cook_nd_args_defaults [of "[3, 10]" _ True "[- 1, 0]", THEN conjunct2, THEN conjunct1]
    by simp
  have 3: "cook_nd_args [3, 10] None (Some [2]) False = Inl IndexError"
    using cook_nd_args_defaults [of "[3, 10]" _ False "[2]", THEN conjunct2, THEN conjunct1]
    by simp
  have 4: "cook_nd_args [3, 10] None None True = Inr ([3, 18], [- 2, - 1])"
    using cook_nd_args_defaults [of "[3, 10]" _ True, THEN conjunct2, THEN conjunct2]
    by (simp add: u)
  show ?thesis using 1 2 3 4 by blast
qed

section \<open>Claim C6: the checks of the normalizer\<close>

text \<open>
  C6, as stated, has the normalizer return for every input that passes the two length
  checks. With sizes absent, the sizes are read from the shape at the given axes before
  the checks, and an axis that does not resolve raises \<^verbatim>\<open>IndexError\<close> there: one axis
  on an array of rank 2 passes both checks, yet the call raises.
\<close>

theorem cook_nd_args_unresolvable_axis:
  "cook_nd_args [4, 5] None (Some [5]) False = Inl IndexError"
  by (simp add: cook_nd_args_def cook_defaults_def py_index_def resolvable_def)

text \<open>
  C6 (amended): with sizes and axes both given, the normalizer raises the shape error of
  line 283 when their lengths differ, else the shape error of line 287 when the length
  exceeds the rank of the array, else it returns them unchanged. With sizes given and
  axes absent the lengths agree, and it raises the shape error of line 287 when the
  length exceeds the rank and returns the sizes with the last \<open>len(sizes)\<close> axes
  otherwise. With sizes absent and axes given: if an axis does not resolve against the
  array, or the transform is inverse real and there is no axis, filling in the sizes
  raises \<^verbatim>\<open>IndexError\<close> before the checks; otherwise the lengths agree, and it raises
  the shape error of line 287 when there are more axes than the array has and returns
  the given axes with as many sizes otherwise. With both absent it returns (except for
  an inverse real transform of an array without axes, an \<^verbatim>\<open>IndexError\<close>).
\<close>

theorem cook_nd_args_checks:
  "cook_nd_args a_shape (Some sz) (Some ax) invreal =
     (if length sz \<noteq> length ax then Inl Shape_error_lengths
      else if length sz > length a_shape then Inl Shape_error_dimensionality
      else Inr (sz, ax)) \<and>
   cook_nd_args a_shape (Some sz) None invreal =
     (if length sz > length a_shape then Inl Shape_error_dimensionality
      else Inr (sz, [- int (length sz)..- 1])) \<and>
   ((\<exists>i\<in>set ax. i < - int (length a_shape) \<or> int (length a_shape) \<le> i) \<or>
    (invreal \<and> ax = []) \<longrightarrow>
      cook_nd_args a_shape None (Some ax) invreal = Inl IndexError) \<and>
   ((\<forall>i\<in>set ax. - int (length a_shape) \<le> i \<and> i < int (length a_shape)) \<and>
    \<not> (invreal \<and> ax = []) \<longrightarrow>
      (length ax > length a_shape \<longrightarrow>
         cook_nd_args a_shape None (Some ax) invreal = Inl Shape_error_dimensionality) \<and>
      (length ax \<le> length a_shape \<longrightarrow>
         (\<exists>sizes. cook_nd_args a_shape None (Some ax) invreal = Inr (sizes, ax) \<and>
                  length sizes = length ax))) \<and>
   cook_nd_args a_shape None None invreal =
     (if invreal \<and> a_shape = [] then Inl IndexError
      else Inr (if invreal then a_shape[length a_shape - 1 := (last a_shape - 1) * 2]
                else a_shape,
                [- int (length a_shape)..- 1]))"
proof -
  have r: "(\<forall>i\<in>set ax. - int (length a_shape) \<le> i \<and> i < int (length a_shape)) \<longleftrightarrow>
      (\<forall>i\<in>set ax. resolvable (length a_shape) i)"
    by (simp add: resolvable_def)
  have "\<And>i. (i < - int (length a_shape) \<or> int (length a_shape) \<le> i) \<longleftrightarrow>
      \<not> resolvable (length a_shape) i"
    by (auto simp: resolvable_def)
  then have b: "(\<exists>i\<in>set ax. i < - int (length a_shape) \<or> int (length a_shape) \<le> i) \<longleftrightarrow>
      \<not> (\<forall>i\<in>set ax. resolvable (length a_shape) i)"
    by simp
  have bad: "(\<exists>i\<in>set ax. i < - int (length a_shape) \<or> int (length a_shape) \<le> i) \<or>
      (invreal \<and> ax = []) \<longrightarrow>
      cook_nd_args a_shape None (Some ax) invreal = Inl IndexError"
    unfolding b by (auto simp: cook_nd_args_absent_given)
  have good: "(\<forall>i\<in>set ax. - int (length a_shape) \<le> i \<and> i < int (length a_shape)) \<and>
      \<not> (invreal \<and> ax = []) \<longrightarrow>
      (length ax > length a_shape \<longrightarrow>
         cook_nd_args a_shape None (Some ax) invreal = Inl Shape_error_dimensionality) \<and>
      (length ax \<le> length a_shape \<longrightarrow>
         (\<exists>sizes. cook_nd_args a_shape None (Some ax) invreal = Inr (sizes, ax) \<and>
                  length sizes = length ax))"
    unfolding r by (auto simp: cook_nd_args_absent_given)
  show ?thesis
    using bad good
    by (simp only: cook_nd_args_given_given cook_nd_args_given_absent
        cook_nd_args_absent_absent)
qed

text \<open>
  Lengths 2 and 1 raise the first shape error; two given sizes on a rank-1 array raise
  the second, and so do the two axes \<open>(0, 0)\<close> with the sizes absent; the axis 7 does
  not resolve; one axis on a rank-2 array returns one size; with nothing given the shape
  and all axes are returned.
\<close>

theorem cook_nd_args_checks_witness:
  "cook_nd_args [4, 5] (Some [1, 2]) (Some [0]) False = Inl Shape_error_lengths \<and>
   cook_nd_args [4] (Some [1, 2]) None False = Inl Shape_error_dimensionality \<and>
   cook_nd_args [4] None (Some [0, 0]) False = Inl Shape_error_dimensionality \<and>
   cook_nd_args [4, 5] None (Some [7]) False = Inl IndexError \<and>
   (\<exists>sizes. cook_nd_args [4, 5] None (Some [1]) False = Inr (sizes, [1]) \<and> length sizes = 1) \<and>
   cook_nd_args [4, 5] None None False = Inr ([4, 5], [- 2, - 1])"
proof -
  have u: "[- 2..- 1] = [- 2, - 1 :: int]" by (simp add: upto.simps)
  note T = cook_nd_args_checks
  have 1: "cook_nd_args [4, 5] (Some [1, 2]) (Some [0]) False = Inl Shape_error_lengths"
    using T [of "[4, 5]" "[1, 2]" "[0]" False, THEN conjunct1] by simp
  have 2: "cook_nd_args [4] (Some [1, 2]) None False = Inl Shape_error_dimensionality"
    using T [of "[4]" "[1, 2]" _ False, THEN conjunct2, THEN conjunct1] by simp
  have 3: "cook_nd_args [4] None (Some [0, 0]) False = Inl Shape_error_dimensionality"
    using T [of "[4]" _ "[0, 0]" False, THEN conjunct2, THEN conjunct2, THEN conjunct2,
        THEN conjunct1]
    by simp
  have 4: "cook_nd_args [4, 5] None (Some [7]) False = Inl IndexError"
    using T [of "[4, 5]" _ "[7]" False, THEN conjunct2, THEN conjunct2, THEN conjunct1]
    by simp
  have 5: "\<exists>sizes. cook_nd_args [4, 5] None (Some [1]) False = Inr (sizes, [1]) \<and>
      length sizes = 1"
    using T [of "[4, 5]" _ "[1]" False, THEN conjunct2, THEN conjunct2, THEN conjunct2,
        THEN conjunct1]
    by simp
  have 6: "cook_nd_args [4, 5] None None False = Inr ([4, 5], [- 2, - 1])"
    using T [of "[4, 5]" _ _ False, THEN conjunct2, THEN conjunct2, THEN conjunct2,
        THEN conjunct2]
    by (simp add: u)
  show ?thesis using 1 2 3 4 5 6 by blast
qed

section \<open>Construction of the adapter\<close>

lemma lookup_dtype_error: "lookup_dtype key = Inl e \<Longrightarrow> e = KeyError"
  by (auto simp: lookup_dtype_def split: option.splits)

lemma coerce_input_shape:
  "coerce_input a inverse' real = Inr (a', ev) \<Longrightarrow> shape a' = shape a"
  by (auto simp: coerce_input_def Let_def split: if_splits sum.splits)

lemma coerce_input_error: "coerce_input a inverse' real = Inl e \<Longrightarrow> e = KeyError"
  by (auto simp: coerce_input_def Let_def split: if_splits sum.splits dest: lookup_dtype_error)

lemma setup_input_slicers_ok:
  "length a_shape = length input_shape \<Longrightarrow>
   \<exists>source dest. setup_input_slicers a_shape input_shape = Inr (source, dest) \<and>
     length source = length a_shape \<and> length dest = length a_shape"
  using setup_input_slicers_nth [of a_shape input_shape] by blast

lemma build_error:
  assumes "fst (build a input_shape output_shape output_dtype axes direction planner_effort
      threads auto_align_input avoid_copy ev0) = Inl e"
    and "length (shape a) = length input_shape"
  shows "e = UnboundLocalError \<or> (e = IndexError \<and> shape a = [])"
proof -
  obtain source dest where "setup_input_slicers (shape a) input_shape = Inr (source, dest)"
    using setup_input_slicers_ok [OF assms(2)] by blast
  then show ?thesis
    using assms by (auto simp: build_def Let_def split: if_splits option.splits)
qed

lemma build_avoid_copy_matched:
  "shape a = input_shape \<Longrightarrow>
   fst (build a input_shape output_shape output_dtype axes direction planner_effort
      threads auto_align_input True ev0) = Inl UnboundLocalError"
  by (simp add: build_def Let_def)

text \<open>
  Three runs of \<^verbatim>\<open>_Xfftn\<close> on a complex array of shape \<open>(4)\<close>. With the shape
  matched and \<open>avoid_copy\<close> false, the snapshot is taken (\<open>Copy\<close>) and copied back
  (\<open>Assign_all\<close>). With another required shape and \<open>avoid_copy\<close> true, construction
  succeeds with neither a snapshot nor a copy: that branch tests \<^verbatim>\<open>if not avoid_copy\<close>.
  With the shape matched and \<open>avoid_copy\<close> true, line 134 reads \<open>a_copy\<close>, which line
  92 left unassigned, whatever the sizes and axes that give the matched shape.
\<close>

lemma Xfftn_copy_matched_shape:
  "Xfftn \<lparr>shape = [4], dtype = ''complex128''\<rparr> None None ''FFTW_MEASURE'' 1
      True False False False =
   (Inr (FFTW \<lparr>plan_input_array = \<lparr>shape = [4], dtype = ''complex128''\<rparr>,
               plan_output_array = \<lparr>shape = [4], dtype = ''complex128''\<rparr>,
               plan_axes = [- 1], plan_direction = ''FFTW_FORWARD'',
               plan_flags = [''FFTW_MEASURE''], plan_threads = 1\<rparr>),
    [Copy, N_byte_align_empty [4] 16 ''complex128'', N_byte_align 16,
     Make_plan \<lparr>plan_input_array = \<lparr>shape = [4], dtype = ''complex128''\<rparr>,
                plan_output_array = \<lparr>shape = [4], dtype = ''complex128''\<rparr>,
                plan_axes = [- 1], plan_direction = ''FFTW_FORWARD'',
                plan_flags = [''FFTW_MEASURE''], plan_threads = 1\<rparr>,
     Assign_all])"
proof -
  have u: "[- 1..- 1] = [- 1 :: int]" by (simp add: upto.simps)
  have c: "cook_nd_args [4] None None False = Inr ([4], [- 1])"
    by (simp add: cook_nd_args_def cook_defaults_def u py_index_def resolvable_def position_def)
  have r: "compute_array_shapes [4] [4] [- 1] False False = Inr ([4], [4])"
    by (simp add: compute_array_shapes_def try_block_def py_index_def py_setitem_def
        resolvable_def position_def)
  have d: "coerce_input \<lparr>shape = [4], dtype = ''complex128''\<rparr> False False =
      Inr (\<lparr>shape = [4], dtype = ''complex128''\<rparr>, [])"
    by (simp add: coerce_input_def iscomplexobj_def rc_dtype_pairs_def)
  show ?thesis
    by (simp add: Xfftn_def valid_efforts_def c r d build_def Let_def)
qed

lemma Xfftn_avoid_copy_other_shape:
  "Xfftn \<lparr>shape = [4], dtype = ''complex128''\<rparr> (Some [8]) None ''FFTW_MEASURE'' 1
      True True False False =
   (Inr (FFTWWrapper
          \<lparr>plan_input_array = \<lparr>shape = [8], dtype = ''complex128''\<rparr>,
           plan_output_array = \<lparr>shape = [8], dtype = ''complex128''\<rparr>,
           plan_axes = [- 1], plan_direction = ''FFTW_FORWARD'',
           plan_flags = [''FFTW_MEASURE''], plan_threads = 1\<rparr>
          [Slice (Some 0) (Some 4)] [Slice (Some 0) (Some 4)]),
    [N_byte_align_empty [8] 16 ''complex128'', N_byte_align_empty [8] 16 ''complex128'',
     Make_plan \<lparr>plan_input_array = \<lparr>shape = [8], dtype = ''complex128''\<rparr>,
                plan_output_array = \<lparr>shape = [8], dtype = ''complex128''\<rparr>,
                plan_axes = [- 1], plan_direction = ''FFTW_FORWARD'',
                plan_flags = [''FFTW_MEASURE''], plan_threads = 1\<rparr>])"
proof -
  have u: "[- 1..- 1] = [- 1 :: int]" by (simp add: upto.simps)
  have c: "cook_nd_args [4] (Some [8]) None False = Inr ([8], [- 1])"
    by (simp add: cook_nd_args_def cook_defaults_def u)
  have r: "compute_array_shapes [4] [8] [- 1] False False = Inr ([8], [8])"
    by (simp add: compute_array_shapes_def try_block_def py_index_def py_setitem_def
        resolvable_def position_def)
  have d: "coerce_input \<lparr>shape = [4], dtype = ''complex128''\<rparr> False False =
      Inr (\<lparr>shape = [4], dtype = ''complex128''\<rparr>, [])"
    by (simp add: coerce_input_def iscomplexobj_def rc_dtype_pairs_def)
  have sl: "setup_input_slicers [4] [8] = Inr ([Slice (Some 0) (Some 4)], [Slice (Some 0) (Some 4)])"
    by (simp add: setup_input_slicers_def py_index_def resolvable_def position_def)
  show ?thesis
    by (simp add: Xfftn_def valid_efforts_def c r d build_def sl Let_def)
qed

lemma Xfftn_avoid_copy_matched:
  assumes "planner_effort \<in> set valid_efforts"
    and "cook_nd_args (shape a) s axes (inverse' \<and> real) = Inr (s', axes')"
    and "compute_array_shapes (shape a) s' axes' inverse' real = Inr (shape a, output_shape)"
    and "dtype a \<in> {''complex64'', ''complex128''}" "\<not> real"
  shows "fst (Xfftn a s axes planner_effort threads auto_align_input True inverse' real) =
    Inl UnboundLocalError"
proof -
  have "coerce_input a inverse' real = Inr (a, [])"
    using assms(4,5) by (auto simp: coerce_input_def iscomplexobj_def rc_dtype_pairs_def)
  then show ?thesis
    using assms by (simp add: Xfftn_def build_avoid_copy_matched)
qed

section \<open>Claim C1: \<open>avoid_copy\<close> on the matched-shape path\<close>

text \<open>
  C1 says that for an input array whose shape equals the required input shape,
  construction with \<open>avoid_copy\<close> set succeeds and skips the copy-back. The code takes
  the snapshot only when \<open>avoid_copy\<close> is false, as the claim says, but on the
  matched-shape path it copies the snapshot back unconditionally: with \<open>avoid_copy\<close>
  set, construction raises \<^verbatim>\<open>UnboundLocalError\<close> after the output buffer and the plan
  were made. Evaluated on a complex array of shape \<open>(4)\<close>, no sizes, no axes,
  \<^verbatim>\<open>FFTW_MEASURE\<close>, one thread, \<open>auto_align_input\<close>, \<open>avoid_copy\<close>, forward, complex:
\<close>

theorem Xfftn_avoid_copy_matched_shape:
  "fst (Xfftn \<lparr>shape = [4], dtype = ''complex128''\<rparr> None None ''FFTW_MEASURE'' 1
          True True False False) = Inl UnboundLocalError"
proof -
  have u: "[- 1..- 1] = [- 1 :: int]" by (simp add: upto.simps)
  have c: "cook_nd_args [4] None None False = Inr ([4], [- 1])"
    by (simp add: cook_nd_args_def cook_defaults_def u py_index_def resolvable_def position_def)
  have r: "compute_array_shapes [4] [4] [- 1] False False = Inr ([4], [4])"
    by (simp add: compute_array_shapes_def try_block_def py_index_def py_setitem_def
        resolvable_def position_def)
  have d: "coerce_input \<lparr>shape = [4], dtype = ''complex128''\<rparr> False False =
      Inr (\<lparr>shape = [4], dtype = ''complex128''\<rparr>, [])"
    by (simp add: coerce_input_def iscomplexobj_def rc_dtype_pairs_def)
  show ?thesis
    by (simp add: Xfftn_def valid_efforts_def c r d build_avoid_copy_matched)
qed

section \<open>Claim C8: errors come before any allocation\<close>

lemma Xfftn_error_cases:
  assumes "fst (Xfftn a s axes planner_effort threads auto_align_input avoid_copy inverse' real)
      = Inl e"
  shows "snd (Xfftn a s axes planner_effort threads auto_align_input avoid_copy inverse' real) = []
      \<or> e = KeyError \<or> e = UnboundLocalError \<or> (e = IndexError \<and> shape a = [])"
proof -
  let ?X = "Xfftn a s axes planner_effort threads auto_align_input avoid_copy inverse' real"
  show ?thesis
  proof (cases "planner_effort \<in> set valid_efforts")
    case False
    then show ?thesis by (simp add: Xfftn_def)
  next
    case eff: True
    show ?thesis
    proof (cases "cook_nd_args (shape a) s axes (inverse' \<and> real)")
      case (Inl x)
      then show ?thesis using eff by (simp add: Xfftn_def)
    next
      case (Inr p)
      obtain s' axes' where p: "p = (s', axes')" by (cases p)
      show ?thesis
      proof (cases "compute_array_shapes (shape a) s' axes' inverse' real")
        case (Inl x)
        then show ?thesis using eff Inr p by (simp add: Xfftn_def)
      next
        case sh: (Inr q)
        obtain input_shape output_shape where q: "q = (input_shape, output_shape)" by (cases q)
        have len: "length input_shape = length (shape a)"
          using compute_array_shapes_length sh q by blast
        show ?thesis
        proof (cases "coerce_input a inverse' real")
          case (Inl x)
          then show ?thesis using eff Inr p sh q by (simp add: Xfftn_def)
        next
          case co: (Inr c)
          obtain a' ev0 where c: "c = (a', ev0)" by (cases c)
          have sa: "shape a' = shape a" using coerce_input_shape co c by blast
          show ?thesis
          proof (cases "if \<not> real then Inr (dtype a') else lookup_dtype (dtype a')")
            case (Inl x)
            then have "x = KeyError" by (auto split: if_splits dest: lookup_dtype_error)
            then have "fst ?X = Inl KeyError"
              using eff Inr p sh q co c Inl by (simp add: Xfftn_def)
            then show ?thesis using assms by simp
          next
            case od: (Inr output_dtype)
            have X: "?X = build a' input_shape output_shape output_dtype axes'
                (if inverse' then ''FFTW_BACKWARD'' else ''FFTW_FORWARD'')
                planner_effort threads auto_align_input avoid_copy ev0"
              using eff Inr p sh q co c od by (simp add: Xfftn_def)
            have "e = UnboundLocalError \<or> (e = IndexError \<and> shape a' = [])"
              using assms unfolding X by (rule build_error) (simp add: len sa)
            then show ?thesis using sa by auto
          qed
        qed
      qed
    qed
  qed
qed

text \<open>
  C8, as stated, has every configuration, shape or axis error raised before any buffer
  is allocated. The axis error of the normalizer is an \<^verbatim>\<open>IndexError\<close>, and one
  \<^verbatim>\<open>IndexError\<close> comes later: on an array without axes, whose shape \<open>()\<close> always
  matches, the copy-back of line 134 indexes the input buffer with a slice and raises,
  after the snapshot was taken, the output buffer allocated and the plan made.
\<close>

theorem Xfftn_rank_0_late_error:
  "Xfftn \<lparr>shape = [], dtype = ''complex128''\<rparr> None None ''FFTW_MEASURE'' 1
      True False False False =
   (Inl IndexError,
    [Copy, N_byte_align_empty [] 16 ''complex128'', N_byte_align 16,
     Make_plan \<lparr>plan_input_array = \<lparr>shape = [], dtype = ''complex128''\<rparr>,
                plan_output_array = \<lparr>shape = [], dtype = ''complex128''\<rparr>,
                plan_axes = [], plan_direction = ''FFTW_FORWARD'',
                plan_flags = [''FFTW_MEASURE''], plan_threads = 1\<rparr>])"
proof -
  have c: "cook_nd_args [] None None False = Inr ([], [])"
    by (simp add: cook_nd_args_def cook_defaults_def)
  have r: "compute_array_shapes [] [] [] False False = Inr ([], [])"
    by (simp add: compute_array_shapes_def try_block_def)
  have d: "coerce_input \<lparr>shape = [], dtype = ''complex128''\<rparr> False False =
      Inr (\<lparr>shape = [], dtype = ''complex128''\<rparr>, [])"
    by (simp add: coerce_input_def iscomplexobj_def rc_dtype_pairs_def)
  show ?thesis
    by (simp add: Xfftn_def valid_efforts_def c r d build_def Let_def)
qed

text \<open>
  C8 (amended): for every \<open>planner_effort\<close> outside \<^verbatim>\<open>_valid_efforts\<close>, construction
  raises the configuration error whatever the array, sizes and axes are (also those the
  normalizer or the resolver would reject), with no call made to numpy or to the
  allocator before; every error the normalizer or the resolver raises is raised by
  construction with no such call before it; whenever construction raises the
  configuration error, a shape error or the invalid-axes error, nothing was converted,
  copied or allocated before; and the same holds of every \<^verbatim>\<open>IndexError\<close> when the
  array has at least one axis.
\<close>

theorem Xfftn_errors_before_allocation:
  "(planner_effort \<notin> set valid_efforts \<longrightarrow>
      Xfftn a s axes planner_effort threads auto_align_input avoid_copy inverse' real =
        (Inl Invalid_planner_effort, [])) \<and>
   (planner_effort \<in> set valid_efforts \<and>
    cook_nd_args (shape a) s axes (inverse' \<and> real) = Inl e \<longrightarrow>
      Xfftn a s axes planner_effort threads auto_align_input avoid_copy inverse' real =
        (Inl e, [])) \<and>
   (planner_effort \<in> set valid_efforts \<and>
    cook_nd_args (shape a) s axes (inverse' \<and> real) = Inr (s', axes') \<and>
    compute_array_shapes (shape a) s' axes' inverse' real = Inl e \<longrightarrow>
      Xfftn a s axes planner_effort threads auto_align_input avoid_copy inverse' real =
        (Inl e, [])) \<and>
   (fst (Xfftn a s axes planner_effort threads auto_align_input avoid_copy inverse' real)
      \<in> {Inl Invalid_planner_effort, Inl Shape_error_lengths, Inl Shape_error_dimensionality,
         Inl Invalid_axes} \<longrightarrow>
      snd (Xfftn a s axes planner_effort threads auto_align_input avoid_copy inverse' real) = []) \<and>
   (fst (Xfftn a s axes planner_effort threads auto_align_input avoid_copy inverse' real)
      = Inl IndexError \<and> shape a \<noteq> [] \<longrightarrow>
      snd (Xfftn a s axes planner_effort threads auto_align_input avoid_copy inverse' real) = [])"
proof (intro conjI impI)
  assume "planner_effort \<notin> set valid_efforts"
  then show "Xfftn a s axes planner_effort threads auto_align_input avoid_copy inverse' real =
        (Inl Invalid_planner_effort, [])"
    by (simp add: Xfftn_def)
next
  assume "planner_effort \<in> set valid_efforts \<and>
    cook_nd_args (shape a) s axes (inverse' \<and> real) = Inl e"
  then show "Xfftn a s axes planner_effort threads auto_align_input avoid_copy inverse' real =
        (Inl e, [])"
    by (simp add: Xfftn_def)
next
  assume "planner_effort \<in> set valid_efforts \<and>
    cook_nd_args (shape a) s axes (inverse' \<and> real) = Inr (s', axes') \<and>
    compute_array_shapes (shape a) s' axes' inverse' real = Inl e"
  then show "Xfftn a s axes planner_effort threads auto_align_input avoid_copy inverse' real =
        (Inl e, [])"
    by (simp add: Xfftn_def)
next
  let ?X = "Xfftn a s axes planner_effort threads auto_align_input avoid_copy inverse' real"
  assume "fst ?X \<in> {Inl Invalid_planner_effort, Inl Shape_error_lengths,
      Inl Shape_error_dimensionality, Inl Invalid_axes}"
  then obtain x where x: "fst ?X = Inl x"
    "x \<in> {Invalid_planner_effort, Shape_error_lengths, Shape_error_dimensionality, Invalid_axes}"
    by auto
  from Xfftn_error_cases [OF x(1)] x(2) show "snd ?X = []" by auto
next
  let ?X = "Xfftn a s axes planner_effort threads auto_align_input avoid_copy inverse' real"
  assume "fst ?X = Inl IndexError \<and> shape a \<noteq> []"
  then have x: "fst ?X = Inl IndexError" and ne: "shape a \<noteq> []" by simp_all
  from Xfftn_error_cases [OF x] ne show "snd ?X = []" by auto
qed

text \<open>
  On an array of shape \<open>(4)\<close>: the unknown effort \<^verbatim>\<open>FFTW_FAST\<close> is rejected first,
  though the sizes and axes have different lengths; with \<^verbatim>\<open>FFTW_MEASURE\<close> these raise
  the shape error; the axis 3 raises the invalid-axes error of the resolver when a size
  is given and the \<^verbatim>\<open>IndexError\<close> of the normalizer when it is not; nothing was
  allocated in any of the four.
\<close>

theorem Xfftn_errors_before_allocation_witness:
  "Xfftn \<lparr>shape = [4], dtype = ''float64''\<rparr> (Some [1, 2]) (Some [0]) ''FFTW_FAST'' 1
      True False False False = (Inl Invalid_planner_effort, []) \<and>
   Xfftn \<lparr>shape = [4], dtype = ''float64''\<rparr> (Some [1, 2]) (Some [0]) ''FFTW_MEASURE'' 1
      True False False False = (Inl Shape_error_lengths, []) \<and>
   Xfftn \<lparr>shape = [4], dtype = ''float64''\<rparr> (Some [8]) (Some [3]) ''FFTW_MEASURE'' 1
      True False False False = (Inl Invalid_axes, []) \<and>
   fst (Xfftn \<lparr>shape = [4], dtype = ''float64''\<rparr> None (Some [3]) ''FFTW_MEASURE'' 1
      True False False False) = Inl IndexError \<and>
   snd (Xfftn \<lparr>shape = [4], dtype = ''float64''\<rparr> None (Some [3]) ''FFTW_MEASURE'' 1
      True False False False) = []"
proof -
  let ?a = "\<lparr>shape = [4], dtype = ''float64''\<rparr>"
  note T = Xfftn_errors_before_allocation
  have n: "''FFTW_FAST'' \<notin> set valid_efforts" and v: "''FFTW_MEASURE'' \<in> set valid_efforts"
    by (simp_all add: valid_efforts_def)
  have 1: "Xfftn ?a (Some [1, 2]) (Some [0]) ''FFTW_FAST'' 1 True False False False =
      (Inl Invalid_planner_effort, [])"
    using T [of "''FFTW_FAST''" ?a "Some [1, 2]" "Some [0]" 1 True False False False,
        THEN conjunct1] n
    by blast
  have c2: "cook_nd_args (shape ?a) (Some [1, 2]) (Some [0]) (False \<and> False) =
      Inl Shape_error_lengths"
    by (simp add: cook_nd_args_def cook_defaults_def)
  have 2: "Xfftn ?a (Some [1, 2]) (Some [0]) ''FFTW_MEASURE'' 1 True False False False =
      (Inl Shape_error_lengths, [])"
    using T [of "''FFTW_MEASURE''" ?a "Some [1, 2]" "Some [0]" 1 True False False False
        Shape_error_lengths, THEN conjunct2, THEN conjunct1] v c2
    by blast
  have c3: "cook_nd_args (shape ?a) (Some [8]) (Some [3]) (False \<and> False) = Inr ([8], [3])"
    by (simp add: cook_nd_args_def cook_defaults_def)
  have r3: "compute_array_shapes (shape ?a) [8] [3] False False = Inl Invalid_axes"
    by (simp add: compute_array_shapes_def try_block_def py_index_def py_setitem_def
        resolvable_def position_def)
  have 3: "Xfftn ?a (Some [8]) (Some [3]) ''FFTW_MEASURE'' 1 True False False False =
      (Inl Invalid_axes, [])"
    using T [of "''FFTW_MEASURE''" ?a "Some [8]" "Some [3]" 1 True False False False
        Invalid_axes "[8]" "[3]", THEN conjunct2, THEN conjunct2, THEN conjunct1] v c3 r3
    by blast
  have 4: "fst (Xfftn ?a None (Some [3]) ''FFTW_MEASURE'' 1 True False False False) =
      Inl IndexError"
    by (simp add: Xfftn_def valid_efforts_def cook_nd_args_def cook_defaults_def py_index_def
        resolvable_def)
  have 5: "snd (Xfftn ?a None (Some [3]) ''FFTW_MEASURE'' 1 True False False False) = []"
    using T [of "''FFTW_MEASURE''" ?a None "Some [3]" 1 True False False False,
        THEN conjunct2, THEN conjunct2, THEN conjunct2, THEN conjunct2] 4
    by simp
  show ?thesis using 1 2 3 4 5 by blast
qed

section \<open>Calling the adapter\<close>

lemma length_getitem_shape:
  "getitem_shape slicer shp = Inr box \<Longrightarrow> length box = length shp"
  by (auto simp: getitem_shape_def split: if_splits)

lemma length_getitem_offsets:
  "length slicer \<le> length shp \<Longrightarrow> length (getitem_offsets slicer shp) = length shp"
  by (simp add: getitem_offsets_def)

lemma getitem_shape_ok:
  "length slicer \<le> length shp \<Longrightarrow>
   getitem_shape slicer shp = Inr (map2 slice_extent slicer shp @ drop (length slicer) shp)"
  by (simp add: getitem_shape_def)

lemma in_box_length: "in_box box idx \<Longrightarrow> length idx = length box"
  by (simp add: in_box_def list_all2_lengthD)

lemma map2_add_sub:
  "length idx = length off \<Longrightarrow> map2 (-) (map2 (+) idx off) off = (idx :: int list)"
  by (induction idx off rule: list_induct2) auto

lemma assign_view_inside:
  assumes "in_box box idx" "length box = length dst_off"
  shows "assign_view dst_off src_off box src dst (map2 (+) idx dst_off) =
    src (map2 (+) idx src_off)"
proof -
  have l: "length idx = length dst_off" using assms by (simp add: in_box_length)
  then have "map2 (-) (map2 (+) idx dst_off) dst_off = idx" by (rule map2_add_sub)
  then show ?thesis using assms(1) l by (simp add: assign_view_def)
qed

lemma assign_view_outside:
  "\<not> (length j = length dst_off \<and> in_box box (map2 (-) j dst_off)) \<Longrightarrow>
   assign_view dst_off src_off box src dst j = dst j"
  by (auto simp: assign_view_def)

lemma FFTWWrapper_call_error:
  "fst (FFTWWrapper_call self input_array output_array normalise_idft) = Inl e \<Longrightarrow>
   snd (FFTWWrapper_call self input_array output_array normalise_idft) = self"
  by (auto simp: FFTWWrapper_call_def FFTW_call_def Let_def
      split: option.splits sum.splits if_splits)

text \<open>
  An adapter that \<^verbatim>\<open>_Xfftn\<close> returns has one slice per axis of its internal input
  array in each of its two slicers, so slicing the internal array cannot raise.
\<close>

lemma build_wrapper_slicers:
  assumes "build a input_shape output_shape output_dtype axes direction planner_effort
      threads auto_align_input avoid_copy ev0 = (Inr (FFTWWrapper p source dest), ev)"
    and "length (shape a) = length input_shape"
  shows "length source = length (shape (plan_input_array p)) \<and>
         length dest = length (shape (plan_input_array p))"
proof -
  obtain src dst where
    s: "setup_input_slicers (shape a) input_shape = Inr (src, dst)"
      "length src = length (shape a)" "length dst = length (shape a)"
    using setup_input_slicers_ok [OF assms(2)] by blast
  show ?thesis
    using assms s by (auto simp: build_def Let_def split: if_splits option.splits)
qed

lemma Xfftn_wrapper_slicers:
  assumes "Xfftn a s axes planner_effort threads auto_align_input avoid_copy inverse' real =
      (Inr (FFTWWrapper p source dest), ev)"
  shows "length source = length (shape (plan_input_array p)) \<and>
         length dest = length (shape (plan_input_array p))"
  using assms
  by (auto simp: Xfftn_def Let_def split: if_splits sum.splits prod.splits
      dest!: compute_array_shapes_length coerce_input_shape
      intro: build_wrapper_slicers [THEN conjunct1] build_wrapper_slicers [THEN conjunct2])

section \<open>Claim C9: a call with a new input array\<close>

text \<open>
  C9, as stated, covers every invocation with a new input array. A new input with fewer
  axes than the slicer has slices falls under neither of its two cases: numpy raises
  \<^verbatim>\<open>IndexError\<close> when \<^verbatim>\<open>input_array[self.__input_array_slicer]\<close> is evaluated, before
  the shapes are compared; the error is not the shape-mismatch error, nothing is copied
  and the engine is not called. Here an adapter built for a user array of shape
  \<open>(4, 8)\<close> and the required shape \<open>(8, 8)\<close> is called with an array of shape \<open>(4)\<close>.
\<close>

theorem FFTWWrapper_call_rank_deficient_input:
  "fst (FFTWWrapper_call
      \<lparr>self_input_array = \<lparr>shape = [8, 8], dtype = ''complex128'', elems = (\<lambda>idx. 0 :: int)\<rparr>,
       self_output_array = \<lparr>shape = [8, 8], dtype = ''complex128''\<rparr>,
       self_input_array_slicer = [Slice (Some 0) (Some 4), Slice (Some 0) (Some 8)],
       self_FFTW_array_slicer = [Slice (Some 0) (Some 4), Slice None None],
       self_engine_calls = []\<rparr>
      (Some \<lparr>shape = [4], dtype = ''complex128'', elems = (\<lambda>idx. 1)\<rparr>) None True)
     = Inl IndexError \<and>
   self_engine_calls (snd (FFTWWrapper_call
      \<lparr>self_input_array = \<lparr>shape = [8, 8], dtype = ''complex128'', elems = (\<lambda>idx. 0 :: int)\<rparr>,
       self_output_array = \<lparr>shape = [8, 8], dtype = ''complex128''\<rparr>,
       self_input_array_slicer = [Slice (Some 0) (Some 4), Slice (Some 0) (Some 8)],
       self_FFTW_array_slicer = [Slice (Some 0) (Some 4), Slice None None],
       self_engine_calls = []\<rparr>
      (Some \<lparr>shape = [4], dtype = ''complex128'', elems = (\<lambda>idx. 1)\<rparr>) None True)) = []"
  by (simp add: FFTWWrapper_call_def getitem_shape_def Let_def)

text \<open>
  C9 (amended): on every invocation of the adapter (its slicers no longer than the rank
  of its internal input array, as for every adapter the builder returns) with a new
  input array that has at least as many axes as the input slicer has slices: if the
  sliced region of the new input has a different shape from the sliced region of the
  internal input buffer, the shape-mismatch error is raised and the adapter is left as
  it was; otherwise the call returns the output buffer, every element of the sliced
  region of the new input is copied to the corresponding element of the sliced region
  of the internal buffer, every other element of the internal buffer is unchanged, and
  the engine plan is executed once, with \<^verbatim>\<open>input_array=None\<close> and the caller's
  \<open>output_array\<close> and \<open>normalise_idft\<close>.
\<close>

theorem FFTWWrapper_call_new_input:
  assumes "length (self_FFTW_array_slicer self) \<le> length (shape (self_input_array self))"
    and "length (self_input_array_slicer self) \<le> length (shape new_input)"
  shows "(getitem_shape (self_input_array_slicer self) (shape new_input) \<noteq>
          getitem_shape (self_FFTW_array_slicer self) (shape (self_input_array self)) \<longrightarrow>
        FFTWWrapper_call self (Some new_input) output_array normalise_idft =
          (Inl Invalid_input_shape, self)) \<and>
     (getitem_shape (self_input_array_slicer self) (shape new_input) =
          getitem_shape (self_FFTW_array_slicer self) (shape (self_input_array self)) \<longrightarrow>
        fst (FFTWWrapper_call self (Some new_input) output_array normalise_idft) =
          Inr (case output_array of None \<Rightarrow> self_output_array self | Some out \<Rightarrow> out) \<and>
        self_engine_calls (snd (FFTWWrapper_call self (Some new_input) output_array normalise_idft)) =
          self_engine_calls self @ [Engine_call None output_array normalise_idft] \<and>
        (\<forall>box idx.
           getitem_shape (self_input_array_slicer self) (shape new_input) = Inr box \<and>
           in_box box idx \<longrightarrow>
           elems (self_input_array
                    (snd (FFTWWrapper_call self (Some new_input) output_array normalise_idft)))
             (map2 (+) idx
                (getitem_offsets (self_FFTW_array_slicer self) (shape (self_input_array self)))) =
           elems new_input
             (map2 (+) idx (getitem_offsets (self_input_array_slicer self) (shape new_input)))) \<and>
        (\<forall>box j.
           getitem_shape (self_input_array_slicer self) (shape new_input) = Inr box \<and>
           \<not> (length j = length (shape (self_input_array self)) \<and>
              in_box box
                (map2 (-) j
                   (getitem_offsets (self_FFTW_array_slicer self)
                      (shape (self_input_array self))))) \<longrightarrow>
           elems (self_input_array
                    (snd (FFTWWrapper_call self (Some new_input) output_array normalise_idft))) j =
           elems (self_input_array self) j))"
proof -
  let ?ishape = "shape (self_input_array self)"
  let ?doff = "getitem_offsets (self_FFTW_array_slicer self) ?ishape"
  let ?soff = "getitem_offsets (self_input_array_slicer self) (shape new_input)"
  obtain ibox where ibox: "getitem_shape (self_FFTW_array_slicer self) ?ishape = Inr ibox"
    using getitem_shape_ok [OF assms(1)] by blast
  obtain nbox where nbox: "getitem_shape (self_input_array_slicer self) (shape new_input) = Inr nbox"
    using getitem_shape_ok [OF assms(2)] by blast
  have li: "length ibox = length ?ishape" using ibox by (rule length_getitem_shape)
  have ld: "length ?doff = length ?ishape" using assms(1) by (rule length_getitem_offsets)
  show ?thesis
  proof (cases "nbox = ibox")
    case False
    then show ?thesis by (simp add: FFTWWrapper_call_def Let_def ibox nbox)
  next
    case True
    let ?new = "assign_view ?doff ?soff ibox (elems new_input) (elems (self_input_array self))"
    have call: "FFTWWrapper_call self (Some new_input) output_array normalise_idft =
        FFTW_call (self\<lparr>self_input_array := (self_input_array self)\<lparr>elems := ?new\<rparr>\<rparr>)
          None output_array normalise_idft"
      using True by (simp add: FFTWWrapper_call_def Let_def ibox nbox)
    have el: "elems (self_input_array
        (snd (FFTWWrapper_call self (Some new_input) output_array normalise_idft))) = ?new"
      by (simp add: call FFTW_call_def)
    have inside: "\<forall>idx. in_box ibox idx \<longrightarrow> ?new (map2 (+) idx ?doff) =
        elems new_input (map2 (+) idx ?soff)"
      using li ld by (simp add: assign_view_inside)
    have outside: "\<forall>j. \<not> (length j = length ?ishape \<and> in_box ibox (map2 (-) j ?doff)) \<longrightarrow>
        ?new j = elems (self_input_array self) j"
      using ld by (simp add: assign_view_outside)
    have res: "fst (FFTWWrapper_call self (Some new_input) output_array normalise_idft) =
        Inr (case output_array of None \<Rightarrow> self_output_array self | Some out \<Rightarrow> out)"
      unfolding call by (cases output_array) (simp_all add: FFTW_call_def)
    have calls: "self_engine_calls
        (snd (FFTWWrapper_call self (Some new_input) output_array normalise_idft)) =
        self_engine_calls self @ [Engine_call None output_array normalise_idft]"
      by (simp add: call FFTW_call_def)
    show ?thesis
      using True inside outside by (simp add: el nbox ibox res calls)
  qed
qed

text \<open>
  An adapter padding a user array of shape \<open>(4)\<close> into an internal buffer of shape
  \<open>(8)\<close> that holds zeros: a new input of shape \<open>(3)\<close> is rejected; a new input of
  shape \<open>(4)\<close> holding sevens is copied to positions 0 to 3, position 5 stays zero, and
  the engine is called with no input array.
\<close>

theorem FFTWWrapper_call_new_input_witness:
  "FFTWWrapper_call
      \<lparr>self_input_array = \<lparr>shape = [8], dtype = ''complex128'', elems = (\<lambda>idx. 0 :: int)\<rparr>,
       self_output_array = \<lparr>shape = [8], dtype = ''complex128''\<rparr>,
       self_input_array_slicer = [Slice (Some 0) (Some 4)],
       self_FFTW_array_slicer = [Slice (Some 0) (Some 4)],
       self_engine_calls = []\<rparr>
      (Some \<lparr>shape = [3], dtype = ''complex128'', elems = (\<lambda>idx. 7)\<rparr>) None True =
     (Inl Invalid_input_shape,
      \<lparr>self_input_array = \<lparr>shape = [8], dtype = ''complex128'', elems = (\<lambda>idx. 0 :: int)\<rparr>,
       self_output_array = \<lparr>shape = [8], dtype = ''complex128''\<rparr>,
       self_input_array_slicer = [Slice (Some 0) (Some 4)],
       self_FFTW_array_slicer = [Slice (Some 0) (Some 4)],
       self_engine_calls = []\<rparr>) \<and>
   fst (FFTWWrapper_call
      \<lparr>self_input_array = \<lparr>shape = [8], dtype = ''complex128'', elems = (\<lambda>idx. 0 :: int)\<rparr>,
       self_output_array = \<lparr>shape = [8], dtype = ''complex128''\<rparr>,
       self_input_array_slicer = [Slice (Some 0) (Some 4)],
       self_FFTW_array_slicer = [Slice (Some 0) (Some 4)],
       self_engine_calls = []\<rparr>
      (Some \<lparr>shape = [4], dtype = ''complex128'', elems = (\<lambda>idx. 7)\<rparr>) None True) = Inr \<lparr>shape = [8], dtype = ''complex128''\<rparr> \<and>
   self_engine_calls (snd (FFTWWrapper_call
      \<lparr>self_input_array = \<lparr>shape = [8], dtype = ''complex128'', elems = (\<lambda>idx. 0 :: int)\<rparr>,
       self_output_array = \<lparr>shape = [8], dtype = ''complex128''\<rparr>,
       self_input_array_slicer = [Slice (Some 0) (Some 4)],
       self_FFTW_array_slicer = [Slice (Some 0) (Some 4)],
       self_engine_calls = []\<rparr>
      (Some \<lparr>shape = [4], dtype = ''complex128'', elems = (\<lambda>idx. 7)\<rparr>) None True)) = [Engine_call None None True] \<and>
   elems (self_input_array (snd (FFTWWrapper_call
      \<lparr>self_input_array = \<lparr>shape = [8], dtype = ''complex128'', elems = (\<lambda>idx. 0 :: int)\<rparr>,
       self_output_array = \<lparr>shape = [8], dtype = ''complex128''\<rparr>,
       self_input_array_slicer = [Slice (Some 0) (Some 4)],
       self_FFTW_array_slicer = [Slice (Some 0) (Some 4)],
       self_engine_calls = []\<rparr>
      (Some \<lparr>shape = [4], dtype = ''complex128'', elems = (\<lambda>idx. 7)\<rparr>) None True))) [2] = 7 \<and>
   elems (self_input_array (snd (FFTWWrapper_call
      \<lparr>self_input_array = \<lparr>shape = [8], dtype = ''complex128'', elems = (\<lambda>idx. 0 :: int)\<rparr>,
       self_output_array = \<lparr>shape = [8], dtype = ''complex128''\<rparr>,
       self_input_array_slicer = [Slice (Some 0) (Some 4)],
       self_FFTW_array_slicer = [Slice (Some 0) (Some 4)],
       self_engine_calls = []\<rparr>
      (Some \<lparr>shape = [4], dtype = ''complex128'', elems = (\<lambda>idx. 7)\<rparr>) None True))) [5] = 0"
proof -
  let ?w = "\<lparr>self_input_array = \<lparr>shape = [8], dtype = ''complex128'', elems = (\<lambda>idx. 0 :: int)\<rparr>,
       self_output_array = \<lparr>shape = [8], dtype = ''complex128''\<rparr>,
       self_input_array_slicer = [Slice (Some 0) (Some 4)],
       self_FFTW_array_slicer = [Slice (Some 0) (Some 4)],
       self_engine_calls = []\<rparr>"
  let ?x4 = "\<lparr>shape = [4], dtype = ''complex128'', elems = (\<lambda>idx. 7)\<rparr> :: int data_array"
  let ?x3 = "\<lparr>shape = [3], dtype = ''complex128'', elems = (\<lambda>idx. 7)\<rparr> :: int data_array"
  have h: "length (self_FFTW_array_slicer ?w) \<le> length (shape (self_input_array ?w))"
    "length (self_input_array_slicer ?w) \<le> length (shape ?x4)"
    "length (self_input_array_slicer ?w) \<le> length (shape ?x3)"
    by simp_all
  have g: "getitem_shape [Slice (Some 0) (Some 4)] [8] = Inr [4]"
    "getitem_shape [Slice (Some 0) (Some 4)] [4] = Inr [4]"
    "getitem_shape [Slice (Some 0) (Some 4)] [3] = Inr [3]"
    "getitem_offsets [Slice (Some 0) (Some 4)] [8] = [0]"
    "getitem_offsets [Slice (Some 0) (Some 4)] [4] = [0]"
    by (simp_all add: getitem_shape_def getitem_offsets_def slice_extent_def clip_bound_def)
  have ne: "getitem_shape (self_input_array_slicer ?w) (shape ?x3) \<noteq>
      getitem_shape (self_FFTW_array_slicer ?w) (shape (self_input_array ?w))"
    by (simp add: g)
  have eq: "getitem_shape (self_input_array_slicer ?w) (shape ?x4) =
      getitem_shape (self_FFTW_array_slicer ?w) (shape (self_input_array ?w))"
    by (simp add: g)
  note m = FFTWWrapper_call_new_input [OF h(1) h(3), of None True, THEN conjunct1, THEN mp, OF ne]
  note c = FFTWWrapper_call_new_input [OF h(1) h(2), of None True, THEN conjunct2, THEN mp, OF eq]
  have r: "fst (FFTWWrapper_call ?w (Some ?x4) None True) = Inr \<lparr>shape = [8], dtype = ''complex128''\<rparr>"
    using c [THEN conjunct1] by simp
  have e: "self_engine_calls (snd (FFTWWrapper_call ?w (Some ?x4) None True)) =
      [Engine_call None None True]"
    using c [THEN conjunct2, THEN conjunct1] by simp
  have c1: "elems (self_input_array (snd (FFTWWrapper_call ?w (Some ?x4) None True))) [2] = 7"
    using c [THEN conjunct2, THEN conjunct2, THEN conjunct1, THEN spec, THEN spec, of "[4]" "[2]"]
    by (simp add: g in_box_def)
  have c2: "elems (self_input_array (snd (FFTWWrapper_call ?w (Some ?x4) None True))) [5] = 0"
    using c [THEN conjunct2, THEN conjunct2, THEN conjunct2, THEN spec, THEN spec, of "[4]" "[5]"]
    by (simp add: g in_box_def)
  show ?thesis using m r e c1 c2 by simp
qed

section \<open>Claim C10: nothing is copied when the shape check fails\<close>

text \<open>
  C10: whenever a call of the adapter with a new input array raises the shape-mismatch
  error, the adapter is returned as it was; in particular the elements of its internal
  input buffer are unchanged.
\<close>

theorem FFTWWrapper_call_mismatch_atomic:
  assumes "fst (FFTWWrapper_call self (Some new_input) output_array normalise_idft) =
      Inl Invalid_input_shape"
  shows "snd (FFTWWrapper_call self (Some new_input) output_array normalise_idft) = self \<and>
    elems (self_input_array
             (snd (FFTWWrapper_call self (Some new_input) output_array normalise_idft))) =
      elems (self_input_array self)"
  using FFTWWrapper_call_error [OF assms] by simp

text \<open>
  The adapter of the previous witness, called with a new input of shape \<open>(3)\<close>: the
  error is raised and the internal buffer still holds zeros.
\<close>

theorem FFTWWrapper_call_mismatch_atomic_witness:
  "fst (FFTWWrapper_call
      \<lparr>self_input_array = \<lparr>shape = [8], dtype = ''complex128'', elems = (\<lambda>idx. 0 :: int)\<rparr>,
       self_output_array = \<lparr>shape = [8], dtype = ''complex128''\<rparr>,
       self_input_array_slicer = [Slice (Some 0) (Some 4)],
       self_FFTW_array_slicer = [Slice (Some 0) (Some 4)],
       self_engine_calls = []\<rparr>
      (Some \<lparr>shape = [3], dtype = ''complex128'', elems = (\<lambda>idx. 7)\<rparr>) None True) = Inl Invalid_input_shape \<and>
   elems (self_input_array (snd (FFTWWrapper_call
      \<lparr>self_input_array = \<lparr>shape = [8], dtype = ''complex128'', elems = (\<lambda>idx. 0 :: int)\<rparr>,
       self_output_array = \<lparr>shape = [8], dtype = ''complex128''\<rparr>,
       self_input_array_slicer = [Slice (Some 0) (Some 4)],
       self_FFTW_array_slicer = [Slice (Some 0) (Some 4)],
       self_engine_calls = []\<rparr>
      (Some \<lparr>shape = [3], dtype = ''complex128'', elems = (\<lambda>idx. 7)\<rparr>) None True))) = (\<lambda>idx. 0)"
proof -
  have f: "fst (FFTWWrapper_call
      \<lparr>self_input_array = \<lparr>shape = [8], dtype = ''complex128'', elems = (\<lambda>idx. 0 :: int)\<rparr>,
       self_output_array = \<lparr>shape = [8], dtype = ''complex128''\<rparr>,
       self_input_array_slicer = [Slice (Some 0) (Some 4)],
       self_FFTW_array_slicer = [Slice (Some 0) (Some 4)],
       self_engine_calls = []\<rparr>
      (Some \<lparr>shape = [3], dtype = ''complex128'', elems = (\<lambda>idx. 7)\<rparr>) None True) = Inl Invalid_input_shape"
    by (simp add: FFTWWrapper_call_def getitem_shape_def slice_extent_def clip_bound_def Let_def)
  show ?thesis
    using FFTWWrapper_call_mismatch_atomic [OF f] f by simp
qed

end
